theory Spec2Isabelle
  imports Complex_Main "HOL-Library.Word" "HOL-Library.Sublist"
begin

unbundle bit_operations_syntax

section \<open>JavaScript strings\<close>

text \<open>
  A JavaScript string is a sequence of UTF-16 code units; \<open>length\<close>, \<open>indexOf\<close>,
  \<open>slice\<close>, \<open>charCodeAt\<close> and the regular expressions of \<open>src/index.ts\<close> (none has
  the \<open>u\<close> flag) all count code units. ASCII literals of the source are written
  \<open>str ''...''\<close>; the other characters are given by their code unit.
\<close>

type_synonym jschar = "16 word"
type_synonym jsstring = "jschar list"

definition str :: "string \<Rightarrow> jsstring" where
  "str s = map (\<lambda>c. of_nat (of_char c)) s"

definition BACKSLASH :: jschar where "BACKSLASH = 0x5C"
definition QUOTE :: jschar where "QUOTE = 0x22"
definition LBRACE :: jschar where "LBRACE = 0x7B"
definition RBRACE :: jschar where "RBRACE = 0x7D"
definition NEWLINE :: jschar where "NEWLINE = 0x0A"
definition BACKTICK :: jschar where "BACKTICK = 0x60"

text \<open>\<open>Array.prototype.join\<close> on an array of strings.\<close>

fun join :: "jsstring \<Rightarrow> jsstring list \<Rightarrow> jsstring" where
  "join sep [] = []"
| "join sep [x] = x"
| "join sep (x # y # ys) = x @ sep @ join sep (y # ys)"

section \<open>Data model\<close>

text \<open>
  A number is a binary64 value: \<open>NaN\<close>, an infinity, or a finite value, which is
  represented by the rational that it denotes. The sign of zero is not modelled.
\<close>

datatype jsnumber = NaN | PosInf | NegInf | Fin rat

text \<open>The interface \<open>Competition\<close>. The field \<open>id\<close> of the source is \<open>id_field\<close> here.\<close>

record Competition =
  id_field :: jsstring
  title :: jsstring
  description :: jsstring
  prize :: jsstring
  timeLeft :: jsstring
  source :: jsstring
  participants :: jsnumber
  tags :: "jsstring list"

text \<open>
  The KV namespace as far as \<open>filterNewCompetitions\<close> reads it: \<open>get(key, {type: "text"})\<close>
  resolves to the stored text or to \<open>null\<close> (\<open>None\<close>). A binding that is not configured
  is \<open>undefined\<close>, here \<open>None\<close>.
\<close>

type_synonym KVNamespace = "jsstring \<rightharpoonup> jsstring"

record Env =
  COMPETITION_KV :: "KVNamespace option"
  TARGET_URL :: "jsstring option"
  COMPETITION_PAGE_BASE :: "jsstring option"
  TELEGRAM_BOT_TOKEN :: "jsstring option"
  TELEGRAM_CHAT_ID :: "jsstring option"

section \<open>Deduplication gate\<close>

text \<open>
  \<open>filterNewCompetitions\<close>: one lookup per record under the key \<open>seen:<id>\<close>, joined by
  \<open>Promise.all\<close> (which keeps the order of the array of promises), then \<open>forEach\<close> over
  the results with their index, pushing \<open>competitions[index]\<close> where the value is
  \<open>null\<close>.
\<close>

definition seenKey :: "Competition \<Rightarrow> jsstring" where
  "seenKey c = str ''seen:'' @ id_field c"

definition filterNewCompetitions :: "Env \<Rightarrow> Competition list \<Rightarrow> Competition list" where
  "filterNewCompetitions env competitions =
     (case COMPETITION_KV env of
        None \<Rightarrow> competitions
      | Some kv \<Rightarrow>
          (let existing = map (\<lambda>c. kv (seenKey c)) competitions
           in foldl (\<lambda>fresh (val, index).
                       if val = None then fresh @ [competitions ! index] else fresh)
                [] (zip existing [0..<length existing])))"

section \<open>Notification batcher and formatter\<close>

text \<open>
  Template literals print a number with \<open>Number::toString\<close>; the numbers printed in the
  headers are integers (array lengths and differences of indices), printed in decimal.
\<close>

fun digitsOf :: "nat \<Rightarrow> jsstring" where
  "digitsOf n = (if n < 10 then [of_nat (48 + n)]
                 else digitsOf (n div 10) @ [of_nat (48 + n mod 10)])"

declare digitsOf.simps [simp del]

definition intToString :: "int \<Rightarrow> jsstring" where
  "intToString k = (if k < 0 then str ''-'' @ digitsOf (nat (- k)) else digitsOf (nat k))"

definition TELEGRAM_MAX_LENGTH :: nat where
  "TELEGRAM_MAX_LENGTH = 4096"

text \<open>
  \<open>buildHeader(total, start?, end?)\<close>: the range form when both optional arguments are
  given. The literal text is U+53D1 U+73B0, a space, the total, a space, U+4E2A U+65B0
  U+7ADE U+8D5B, then either U+FF1A and two newlines, or U+FF08, the start, a backslash
  and a hyphen, the end, a slash, the total, U+FF09 U+FF1A and two newlines.
\<close>

definition buildHeader :: "int \<Rightarrow> int option \<Rightarrow> int option \<Rightarrow> jsstring" where
  "buildHeader total' start endIdx =
     (case (start, endIdx) of
        (Some s, Some e) \<Rightarrow>
          [0x53D1, 0x73B0, 0x20] @ intToString total' @ [0x20, 0x4E2A, 0x65B0, 0x7ADE, 0x8D5B, 0xFF08]
          @ intToString s @ [BACKSLASH, 0x2D] @ intToString e @ str ''/'' @ intToString total'
          @ [0xFF09, 0xFF1A, NEWLINE, NEWLINE]
      | _ \<Rightarrow>
          [0x53D1, 0x73B0, 0x20] @ intToString total' @ [0x20, 0x4E2A, 0x65B0, 0x7ADE, 0x8D5B, 0xFF1A,
           NEWLINE, NEWLINE])"

text \<open>
  \<open>escapeMarkdown\<close>: every code unit of the class
  \<open>_ * [ ] ( ) ~ ` > # + - = | { } . ! \\<close> is prefixed with a backslash.
\<close>

definition markdownReserved :: "jschar list" where
  "markdownReserved = [0x5F, 0x2A, 0x5B, 0x5D, 0x28, 0x29, 0x7E, 0x60, 0x3E, 0x23, 0x2B, 0x2D,
                       0x3D, 0x7C, 0x7B, 0x7D, 0x2E, 0x21, 0x5C]"

definition escapeMarkdown :: "jsstring \<Rightarrow> jsstring" where
  "escapeMarkdown input =
     concat (map (\<lambda>ch. if ch \<in> set markdownReserved then [BACKSLASH, ch] else [ch]) input)"

definition trimDescription :: "jsstring \<Rightarrow> jsstring" where
  "trimDescription d = (if length d \<le> 160 then d else take 157 d @ str ''...'')"

text \<open>The placeholder U+672A U+77E5 of \<open>comp.prize || ...\<close>, used for an empty string.\<close>

definition UNKNOWN :: jsstring where
  "UNKNOWN = [0x672A, 0x77E5]"

definition formatCompetition :: "Competition \<Rightarrow> jsstring \<Rightarrow> jsstring" where
  "formatCompetition c baseUrl =
     (let link = escapeMarkdown (baseUrl @ id_field c);
          title' = escapeMarkdown (title c);
          prize' = escapeMarkdown (if prize c = [] then UNKNOWN else prize c);
          timeLeft' = escapeMarkdown (if timeLeft c = [] then UNKNOWN else timeLeft c);
          description' = (if description c \<noteq> []
                          then escapeMarkdown (trimDescription (description c))
                          else [BACKSLASH, 0x2D]);
          tags' = (if length (tags c) > 0
                   then join (str '' '')
                          (map (\<lambda>tag. [BACKTICK] @ escapeMarkdown tag @ [BACKTICK]) (tags c))
                   else [BACKSLASH, 0x2D])
      in join [NEWLINE]
           [[0x2022] @ str '' ['' @ title' @ str ''](''  @ link @ str '')'',
            [0x20, 0x20, 0x6765, 0x6E90] @ str '': ''
              @ escapeMarkdown (if source c = [] then UNKNOWN else source c),
            [0x20, 0x20, 0x5956, 0x91D1] @ str '': '' @ prize',
            [0x20, 0x20, 0x622A, 0x6B62] @ str '': '' @ timeLeft',
            [0x20, 0x20, 0x6807, 0x7B7E] @ str '': '' @ tags',
            [0x20, 0x20, 0x7B80, 0x4ECB] @ str '': '' @ description'])"

text \<open>
  The loop of \<open>buildTelegramMessages\<close> over \<open>i = 0 .. competitions.length - 1\<close>, here
  over the records from index \<open>i\<close> on, with the state \<open>messages\<close> and \<open>currentBatch\<close>;
  \<open>batchStep\<close> is the body of the loop for the record \<open>competitions[i]\<close>.
  The variable \<open>currentLength\<close> of the source is written and never read; it is left
  out. \<open>batchStart\<close> is computed in the integers, as the source does.
\<close>

definition separator :: jsstring where
  "separator = [NEWLINE, NEWLINE]"

definition batchStep ::
  "int \<Rightarrow> jsstring \<Rightarrow> Competition \<Rightarrow> nat \<Rightarrow> jsstring list \<Rightarrow> jsstring list
     \<Rightarrow> jsstring list \<times> jsstring list" where
  "batchStep totalCount baseUrl c i messages currentBatch =
     (let formatted = formatCompetition c baseUrl;
          batchStart = int i - int (length currentBatch) + 1;
          headerTemplate = buildHeader totalCount (Some batchStart) (Some (int i + 1));
          wouldBeLength =
            length headerTemplate
            + sum_list (map length currentBatch)
            + (if length currentBatch > 0 then length separator * length currentBatch else 0)
            + length formatted
      in if wouldBeLength > TELEGRAM_MAX_LENGTH \<and> length currentBatch > 0
         then (let batchEnd = int i;
                   header = (if totalCount = int (length currentBatch)
                             then buildHeader totalCount None None
                             else buildHeader totalCount (Some batchStart) (Some batchEnd))
               in (messages @ [header @ join separator currentBatch], [formatted]))
         else (messages, currentBatch @ [formatted]))"

fun batchLoop ::
  "int \<Rightarrow> jsstring \<Rightarrow> Competition list \<Rightarrow> nat \<Rightarrow> jsstring list \<Rightarrow> jsstring list
     \<Rightarrow> jsstring list \<times> jsstring list" where
  "batchLoop totalCount baseUrl [] i messages currentBatch = (messages, currentBatch)"
| "batchLoop totalCount baseUrl (c # rest) i messages currentBatch =
     (case batchStep totalCount baseUrl c i messages currentBatch of
        (messages', currentBatch') \<Rightarrow>
          batchLoop totalCount baseUrl rest (Suc i) messages' currentBatch')"

definition buildTelegramMessages :: "Competition list \<Rightarrow> jsstring \<Rightarrow> jsstring list" where
  "buildTelegramMessages competitions baseUrl =
     (let totalCount = int (length competitions);
          (messages, currentBatch) = batchLoop totalCount baseUrl competitions 0 [] []
      in if length currentBatch > 0
         then (let batchStart = int (length competitions) - int (length currentBatch) + 1;
                   header = (if length messages = 0
                             then buildHeader totalCount None None
                             else buildHeader totalCount (Some batchStart) (Some totalCount))
               in messages @ [header @ join separator currentBatch])
         else messages)"

section \<open>Notions used to state the properties of the batcher\<close>

text \<open>
  What a header has to print, written out independently of \<open>buildHeader\<close>. A number is
  printed in decimal, most significant digit first, and \<open>readDecimal\<close> reads such a
  text back. The header is U+53D1 U+73B0, a space, the total, a space and U+4E2A U+65B0
  U+7ADE U+8D5B; then, for a range, U+FF08, the start, a backslash, a hyphen, the end, a
  slash, the total and U+FF09; then U+FF1A and two newlines.
\<close>

fun decimalAcc :: "nat \<Rightarrow> jsstring \<Rightarrow> jsstring" where
  "decimalAcc n acc =
     (if n < 10 then of_nat (48 + n) # acc
      else decimalAcc (n div 10) (of_nat (48 + n mod 10) # acc))"

declare decimalAcc.simps [simp del]

definition decimal :: "nat \<Rightarrow> jsstring" where
  "decimal n = decimalAcc n []"

definition readDecimal :: "jsstring \<Rightarrow> nat" where
  "readDecimal s = foldl (\<lambda>a ch. 10 * a + (unat ch - 48)) 0 s"

definition specHeader :: "nat \<Rightarrow> (nat \<times> nat) option \<Rightarrow> jsstring" where
  "specHeader n positions =
     [0x53D1, 0x73B0, 0x20] @ decimal n @ [0x20, 0x4E2A, 0x65B0, 0x7ADE, 0x8D5B]
     @ (case positions of
          None \<Rightarrow> []
        | Some (lo, hi) \<Rightarrow>
            [0xFF08] @ decimal lo @ [0x5C, 0x2D] @ decimal hi @ [0x2F] @ decimal n
            @ [0xFF09])
     @ [0xFF1A, 0x0A, 0x0A]"

text \<open>
  The batches are the runs of consecutive formatted blocks that go into one message. The
  blocks of a batch are written one after the other with a blank line (two newlines)
  between them. For a list of batches, \<open>firstPosition\<close> and \<open>lastPosition\<close> are the
  1-based positions, in the concatenation of all batches, of the first and of the last
  block of batch \<open>k\<close>. The message of batch \<open>k\<close> has the plain header when there is
  one batch only, and the range header of its positions otherwise.
\<close>

definition blankLineJoined :: "jsstring list \<Rightarrow> jsstring" where
  "blankLineJoined blocks =
     (case blocks of
        [] \<Rightarrow> []
      | b # rest \<Rightarrow> b @ concat (map (\<lambda>x. [0x0A, 0x0A] @ x) rest))"

definition firstPosition :: "jsstring list list \<Rightarrow> nat \<Rightarrow> nat" where
  "firstPosition batches k = length (concat (take k batches)) + 1"

definition lastPosition :: "jsstring list list \<Rightarrow> nat \<Rightarrow> nat" where
  "lastPosition batches k = length (concat (take (Suc k) batches))"

definition specMessage :: "nat \<Rightarrow> jsstring list list \<Rightarrow> nat \<Rightarrow> jsstring" where
  "specMessage n batches k =
     specHeader n (if length batches = 1 then None
                   else Some (firstPosition batches k, lastPosition batches k))
     @ blankLineJoined (batches ! k)"

text \<open>
  For the proofs: the header that the code builds for batch \<open>k\<close> of the closed batches,
  the messages of the closed batches, the number of characters that the loop compares
  with the maximum, and the bound that holds of a batch of two or more blocks.
\<close>

definition rangeHeader :: "int \<Rightarrow> jsstring list list \<Rightarrow> nat \<Rightarrow> jsstring" where
  "rangeHeader total' batches k =
     buildHeader total' (Some (int (length (concat (take k batches))) + 1))
       (Some (int (length (concat (take (Suc k) batches)))))"

definition rangeMessages :: "int \<Rightarrow> jsstring list list \<Rightarrow> jsstring list" where
  "rangeMessages total' ds = map (\<lambda>k. rangeHeader total' ds k @ join separator (ds ! k)) [0..<length ds]"

definition wouldBe :: "int \<Rightarrow> jsstring \<Rightarrow> Competition \<Rightarrow> nat \<Rightarrow> jsstring list \<Rightarrow> nat" where
  "wouldBe totalCount baseUrl c i cur =
     length (buildHeader totalCount (Some (int i - int (length cur) + 1)) (Some (int i + 1)))
     + sum_list (map length cur) + length separator * length cur
     + length (formatCompetition c baseUrl)"

definition openFits :: "int \<Rightarrow> nat \<Rightarrow> jsstring list \<Rightarrow> bool" where
  "openFits totalCount i cur \<longleftrightarrow>
     (2 \<le> length cur \<longrightarrow>
        length (buildHeader totalCount (Some (int i - int (length cur) + 1)) (Some (int i)))
        + length (join separator cur) \<le> TELEGRAM_MAX_LENGTH)"

definition closedFit :: "int \<Rightarrow> jsstring list list \<Rightarrow> bool" where
  "closedFit totalCount ds \<longleftrightarrow>
     (\<forall>k < length ds. 2 \<le> length (ds ! k) \<longrightarrow>
        length (rangeHeader totalCount ds k @ join separator (ds ! k)) \<le> TELEGRAM_MAX_LENGTH)"

section \<open>Balanced JSON block extractor\<close>

text \<open>
  \<open>String.prototype.indexOf(pat, from)\<close>: the least index \<open>k\<close> with
  \<open>min from (length s) \<le> k\<close> at which \<open>pat\<close> occurs in \<open>s\<close>; \<open>None\<close> is the
  result \<open>-1\<close>. \<open>indexFrom pat cs k\<close> searches the suffix \<open>cs\<close> that starts at
  index \<open>k\<close>.
\<close>

fun indexFrom :: "jsstring \<Rightarrow> jsstring \<Rightarrow> nat \<Rightarrow> nat option" where
  "indexFrom pat [] k = (if pat = [] then Some k else None)"
| "indexFrom pat (c # cs) k =
     (if take (length pat) (c # cs) = pat then Some k else indexFrom pat cs (Suc k))"

definition indexOf :: "jsstring \<Rightarrow> jsstring \<Rightarrow> nat \<Rightarrow> nat option" where
  "indexOf s pat from = indexFrom pat (drop (min from (length s)) s) (min from (length s))"

text \<open>\<open>String.prototype.slice(start, end)\<close> for indices that are not negative.\<close>

definition slice :: "jsstring \<Rightarrow> nat \<Rightarrow> nat \<Rightarrow> jsstring" where
  "slice s start endIdx = drop start (take endIdx s)"

text \<open>
  \<open>extractJsonBlock\<close>. \<open>blockStep\<close> is the body of the \<open>for\<close> loop at the
  character \<open>ch\<close>, where \<open>prev\<close> is \<open>source[i - 1]\<close> (\<open>undefined\<close>, here
  \<open>None\<close>, at index 0): \<open>None\<close> when the body returns the slice that ends at this
  character, and the new \<open>depth\<close> and \<open>inString\<close> otherwise. \<open>blockEnd\<close> runs
  the loop from index \<open>i\<close> over the rest of the source and gives the index of the
  closing brace, or \<open>None\<close> when the loop runs off the end and \<open>null\<close> is returned.
\<close>

definition blockStep :: "jschar option \<Rightarrow> jschar \<Rightarrow> int \<Rightarrow> bool \<Rightarrow> (int \<times> bool) option" where
  "blockStep prev ch depth inString =
     (let inString' = (if ch = QUOTE \<and> prev \<noteq> Some BACKSLASH then \<not> inString else inString)
      in if \<not> inString'
         then (if ch = LBRACE then Some (depth + 1, inString')
               else if ch = RBRACE
                    then (if depth - 1 = 0 then None else Some (depth - 1, inString'))
                    else Some (depth, inString'))
         else Some (depth, inString'))"

fun blockEnd :: "jschar option \<Rightarrow> jsstring \<Rightarrow> nat \<Rightarrow> int \<Rightarrow> bool \<Rightarrow> nat option" where
  "blockEnd prev [] i depth inString = None"
| "blockEnd prev (ch # rest) i depth inString =
     (case blockStep prev ch depth inString of
        None \<Rightarrow> Some i
      | Some (depth', inString') \<Rightarrow> blockEnd (Some ch) rest (Suc i) depth' inString')"

definition charBefore :: "jsstring \<Rightarrow> nat \<Rightarrow> jschar option" where
  "charBefore s i = (if i = 0 \<or> length s < i then None else Some (s ! (i - 1)))"

definition extractJsonBlock :: "jsstring \<Rightarrow> nat \<Rightarrow> jsstring option" where
  "extractJsonBlock src startIndex =
     (case blockEnd (charBefore src startIndex) (drop startIndex src) startIndex 0 False of
        None \<Rightarrow> None
      | Some i \<Rightarrow> Some (slice src startIndex (i + 1)))"

section \<open>Tolerant JSON decoder\<close>

text \<open>
  The values that \<open>JSON.parse\<close> returns. An object is the list of its own properties
  (the keys are distinct).
\<close>

datatype json =
    JNull
  | JBool bool
  | JNum jsnumber
  | JStr jsstring
  | JArr "json list"
  | JObj "(jsstring \<times> json) list"

datatype error = SyntaxError | TypeError

text \<open>
  What the code takes from the platform and this theory does not define: \<open>JSON.parse\<close>
  (\<open>None\<close> when it throws a \<open>SyntaxError\<close>) and \<open>Number::toString\<close>, the
  conversion of a number to a string.
\<close>

record platform =
  JSON_parse :: "jsstring \<Rightarrow> json option"
  Number_toString :: "jsnumber \<Rightarrow> jsstring"

text \<open>
  \<open>sanitizeJsonString\<close>: the control characters U+0000 to U+001F are replaced, newline
  by backslash \<open>n\<close>, carriage return by backslash \<open>r\<close>, tab by backslash \<open>t\<close>,
  backspace by backslash \<open>b\<close>, form feed by backslash \<open>f\<close>, and the others by
  nothing.
\<close>

definition sanitizeChar :: "jschar \<Rightarrow> jsstring" where
  "sanitizeChar ch =
     (if ch \<le> 0x1F
      then (if ch = 0x0A then [BACKSLASH, 0x6E]
            else if ch = 0x0D then [BACKSLASH, 0x72]
            else if ch = 0x09 then [BACKSLASH, 0x74]
            else if ch = 0x08 then [BACKSLASH, 0x62]
            else if ch = 0x0C then [BACKSLASH, 0x66]
            else [])
      else [ch])"

definition sanitizeJsonString :: "jsstring \<Rightarrow> jsstring" where
  "sanitizeJsonString input = concat (map sanitizeChar input)"

text \<open>\<open>s.replace(/\\"/g, '"')\<close>: every backslash followed by a quote becomes a quote.\<close>

fun unescapeQuotes :: "jsstring \<Rightarrow> jsstring" where
  "unescapeQuotes (a # b # rest) =
     (if a = BACKSLASH \<and> b = QUOTE then QUOTE # unescapeQuotes rest
      else a # unescapeQuotes (b # rest))"
| "unescapeQuotes s = s"

text \<open>
  The fallback fills a \<open>Uint8Array\<close> with \<open>charCodeAt(i)\<close>, which keeps the low
  eight bits of each code unit, and decodes it with
  \<open>new TextDecoder("utf-8", {fatal: false})\<close>. \<open>utf8Scalars\<close> is the UTF-8 decoder
  of the Encoding standard with the error mode "replacement": the state is the code point
  so far, the number of bytes needed and seen, and the bounds of the next byte; an
  ill-formed sequence gives U+FFFD, and the byte that ended it is read again. The decoder
  drops a leading byte order mark, and the scalar values are returned as UTF-16.
\<close>

definition leadByte :: "8 word \<Rightarrow> (nat \<times> nat \<times> nat \<times> nat) option" where
  "leadByte b =
     (if 0xC2 \<le> b \<and> b \<le> 0xDF then Some (unat (b AND 0x1F), 1, 0x80, 0xBF)
      else if 0xE0 \<le> b \<and> b \<le> 0xEF
           then Some (unat (b AND 0x0F), 2, if b = 0xE0 then 0xA0 else 0x80,
                      if b = 0xED then 0x9F else 0xBF)
      else if 0xF0 \<le> b \<and> b \<le> 0xF4
           then Some (unat (b AND 0x07), 3, if b = 0xF0 then 0x90 else 0x80,
                      if b = 0xF4 then 0x8F else 0xBF)
      else None)"

fun utf8Scalars :: "8 word list \<Rightarrow> nat \<Rightarrow> nat \<Rightarrow> nat \<Rightarrow> nat \<Rightarrow> nat \<Rightarrow> nat list" where
  "utf8Scalars [] cp needed seen lower upper = (if needed \<noteq> 0 then [0xFFFD] else [])"
| "utf8Scalars (b # bs) cp needed seen lower upper =
     (if needed = 0
      then (if b \<le> 0x7F then unat b # utf8Scalars bs 0 0 0 0x80 0xBF
            else (case leadByte b of
                    None \<Rightarrow> 0xFFFD # utf8Scalars bs 0 0 0 0x80 0xBF
                  | Some (cp', needed', lower', upper') \<Rightarrow>
                      utf8Scalars bs cp' needed' 0 lower' upper'))
      else if unat b < lower \<or> upper < unat b
           then 0xFFFD # utf8Scalars (b # bs) 0 0 0 0x80 0xBF
           else (if Suc seen \<noteq> needed
                 then utf8Scalars bs (cp * 64 + unat (b AND 0x3F)) needed (Suc seen) 0x80 0xBF
                 else (cp * 64 + unat (b AND 0x3F)) # utf8Scalars bs 0 0 0 0x80 0xBF))"

definition utf16 :: "nat \<Rightarrow> jsstring" where
  "utf16 cp =
     (if cp < 0x10000 then [of_nat cp]
      else [of_nat (0xD800 + (cp - 0x10000) div 0x400), of_nat (0xDC00 + (cp - 0x10000) mod 0x400)])"

definition stripBOM :: "8 word list \<Rightarrow> 8 word list" where
  "stripBOM bs = (if take 3 bs = [0xEF, 0xBB, 0xBF] then drop 3 bs else bs)"

definition utf8Decode :: "8 word list \<Rightarrow> jsstring" where
  "utf8Decode bs = concat (map utf16 (utf8Scalars (stripBOM bs) 0 0 0 0x80 0xBF))"

definition toBytes :: "jsstring \<Rightarrow> 8 word list" where
  "toBytes s = map ucast s"

text \<open>
  \<open>parseCompetitionJson\<close>: \<open>normalized\<close> is computed once, before the \<open>try\<close>; the
  \<open>catch\<close> branch reads the bytes of \<open>normalized\<close> and parses the decoded text as it
  is. \<open>fallbackText\<close> is the text that the second \<open>JSON.parse\<close> receives.
\<close>

definition fallbackText :: "jsstring \<Rightarrow> jsstring" where
  "fallbackText normalized = utf8Decode (toBytes normalized)"

definition parseCompetitionJson :: "platform \<Rightarrow> jsstring \<Rightarrow> error + json" where
  "parseCompetitionJson P raw =
     (let sanitized = sanitizeJsonString raw;
          normalized = unescapeQuotes sanitized
      in case JSON_parse P normalized of
           Some v \<Rightarrow> Inr v
         | None \<Rightarrow>
             (let decoded = fallbackText normalized
              in case JSON_parse P decoded of
                   Some v \<Rightarrow> Inr v
                 | None \<Rightarrow> Inl SyntaxError))"

section \<open>Record normalizer\<close>

text \<open>
  Property access \<open>v.k\<close> on a parsed value: an own property of an object, and
  \<open>undefined\<close> (\<open>None\<close>) otherwise; none of the names that the code reads is a
  property of the prototypes of strings, numbers, booleans, arrays or objects.
\<close>

definition getProp :: "json \<Rightarrow> jsstring \<Rightarrow> json option" where
  "getProp v k = (case v of JObj kvs \<Rightarrow> map_of kvs k | _ \<Rightarrow> None)"

text \<open>Truthiness, as \<open>!v\<close> tests it, and the operator \<open>v ?? d\<close>.\<close>

definition truthy :: "json option \<Rightarrow> bool" where
  "truthy v =
     (case v of
        None \<Rightarrow> False
      | Some JNull \<Rightarrow> False
      | Some (JBool b) \<Rightarrow> b
      | Some (JNum n) \<Rightarrow> n \<noteq> NaN \<and> n \<noteq> Fin 0
      | Some (JStr s) \<Rightarrow> s \<noteq> []
      | Some (JArr xs) \<Rightarrow> True
      | Some (JObj kvs) \<Rightarrow> True)"

definition nullish :: "json option \<Rightarrow> json \<Rightarrow> json" where
  "nullish v d = (case v of None \<Rightarrow> d | Some JNull \<Rightarrow> d | Some w \<Rightarrow> w)"

text \<open>Steps that may throw, in sequence: the first exception is the result.\<close>

definition andThen :: "error + 'a \<Rightarrow> ('a \<Rightarrow> error + 'b) \<Rightarrow> error + 'b" where
  "andThen m f = (case m of Inl e \<Rightarrow> Inl e | Inr x \<Rightarrow> f x)"

fun collect :: "(error + 'a) list \<Rightarrow> error + 'a list" where
  "collect [] = Inr []"
| "collect (m # ms) = andThen m (\<lambda>x. andThen (collect ms) (\<lambda>xs. Inr (x # xs)))"

text \<open>
  \<open>String(v)\<close>: an array is the join by commas of its elements, where \<open>null\<close> gives the
  empty string; \<open>undefined\<close> is \<open>undefined\<close>. An object is converted by the method
  \<open>toString\<close> that it inherits, which gives \<open>[object Object]\<close>; an own property
  \<open>toString\<close> of a parsed object is never a function and hides that method, and the
  conversion then throws a \<open>TypeError\<close> (the method \<open>valueOf\<close> does not give a
  primitive value).
\<close>

fun toString :: "platform \<Rightarrow> json \<Rightarrow> error + jsstring" where
  "toString P JNull = Inr (str ''null'')"
| "toString P (JBool b) = Inr (if b then str ''true'' else str ''false'')"
| "toString P (JNum n) = Inr (Number_toString P n)"
| "toString P (JStr s) = Inr s"
| "toString P (JArr xs) =
     andThen (collect (map (\<lambda>x. if x = JNull then Inr [] else toString P x) xs))
       (\<lambda>ss. Inr (join (str '','') ss))"
| "toString P (JObj kvs) =
     (if map_of kvs (str ''toString'') = None then Inr (str ''[object Object]'')
      else Inl TypeError)"

definition String_of :: "platform \<Rightarrow> json option \<Rightarrow> error + jsstring" where
  "String_of P v = (case v of None \<Rightarrow> Inr (str ''undefined'') | Some w \<Rightarrow> toString P w)"

text \<open>
  White space as \<open>\s\<close> in a regular expression, \<open>trim\<close> and the conversion of a string
  to a number understand it: the white space and line terminator characters.
\<close>

definition isWhiteSpace :: "jschar \<Rightarrow> bool" where
  "isWhiteSpace ch \<longleftrightarrow>
     ch \<in> set [0x09, 0x0A, 0x0B, 0x0C, 0x0D, 0x20, 0xA0, 0x1680, 0x2028, 0x2029, 0x202F,
               0x205F, 0x3000, 0xFEFF]
     \<or> (0x2000 \<le> ch \<and> ch \<le> 0x200A)"

definition trim :: "jsstring \<Rightarrow> jsstring" where
  "trim s = rev (dropWhile isWhiteSpace (rev (dropWhile isWhiteSpace s)))"

text \<open>
  \<open>normalizeSpaces\<close>: \<open>input.replace(/\s+/g, " ").trim()\<close>. In \<open>collapseSpaces\<close>
  the flag says that the character before was white space, so that a run of white space
  gives one space.
\<close>

fun collapseSpaces :: "bool \<Rightarrow> jsstring \<Rightarrow> jsstring" where
  "collapseSpaces inRun [] = []"
| "collapseSpaces inRun (ch # rest) =
     (if isWhiteSpace ch
      then (if inRun then collapseSpaces True rest else 0x20 # collapseSpaces True rest)
      else ch # collapseSpaces False rest)"

definition normalizeSpaces :: "jsstring \<Rightarrow> jsstring" where
  "normalizeSpaces input = trim (collapseSpaces False input)"

text \<open>
  The binary64 value of a rational (round to nearest, ties to even): for a value other
  than 0, \<open>binaryExponent\<close> is the \<open>e\<close> with \<open>2 ^ e\<close> at most the magnitude and
  \<open>2 ^ (e + 1)\<close> above it; the values that can be represented near the magnitude are
  the multiples of \<open>2 ^ (e - 52)\<close>, where \<open>e\<close> is at least -1022; and a magnitude that
  rounds to \<open>2 ^ 1024\<close> or more is an infinity.
\<close>

fun bitLength :: "nat \<Rightarrow> nat" where
  "bitLength n = (if n = 0 then 0 else Suc (bitLength (n div 2)))"

declare bitLength.simps [simp del]

definition pow2 :: "int \<Rightarrow> rat" where
  "pow2 k = (if 0 \<le> k then 2 ^ nat k else 1 / 2 ^ nat (- k))"

definition binaryExponent :: "rat \<Rightarrow> int" where
  "binaryExponent a =
     (let (n, d) = quotient_of a;
          k = int (bitLength (nat n)) - int (bitLength (nat d))
      in if pow2 k \<le> a then k else k - 1)"

definition roundTiesToEven :: "rat \<Rightarrow> int" where
  "roundTiesToEven m =
     (let f = \<lfloor>m\<rfloor>;
          r = m - of_int f
      in if r < 1 / 2 then f
         else if 1 / 2 < r then f + 1
         else (if even f then f else f + 1))"

definition toBinary64 :: "rat \<Rightarrow> jsnumber" where
  "toBinary64 q =
     (if q = 0 then Fin 0
      else (let a = \<bar>q\<bar>;
                e = max (binaryExponent a) (- 1022);
                quantum = pow2 (e - 52);
                v = of_int (roundTiesToEven (a / quantum)) * quantum
            in if pow2 1024 \<le> v then (if q < 0 then NegInf else PosInf)
               else Fin (if q < 0 then - v else v)))"

text \<open>
  The conversion of a string to a number (\<open>StringToNumber\<close>): white space is trimmed;
  the empty string is 0; then a binary, octal or hexadecimal integer literal, or an
  optionally signed decimal literal or \<open>Infinity\<close>, rounded to binary64; anything else
  is \<open>NaN\<close>.
\<close>

definition isDigit :: "jschar \<Rightarrow> bool" where
  "isDigit ch \<longleftrightarrow> 0x30 \<le> ch \<and> ch \<le> 0x39"

definition digitValue :: "jschar \<Rightarrow> nat option" where
  "digitValue ch =
     (if 0x30 \<le> ch \<and> ch \<le> 0x39 then Some (unat ch - 0x30)
      else if 0x61 \<le> ch \<and> ch \<le> 0x66 then Some (unat ch - 0x61 + 10)
      else if 0x41 \<le> ch \<and> ch \<le> 0x46 then Some (unat ch - 0x41 + 10)
      else None)"

definition radixDigit :: "nat \<Rightarrow> jschar \<Rightarrow> bool" where
  "radixDigit base ch = (case digitValue ch of None \<Rightarrow> False | Some d \<Rightarrow> d < base)"

definition radixValue :: "nat \<Rightarrow> jsstring \<Rightarrow> nat" where
  "radixValue base ds = foldl (\<lambda>a ch. a * base + (case digitValue ch of None \<Rightarrow> 0 | Some d \<Rightarrow> d)) 0 ds"

definition radixOf :: "jschar \<Rightarrow> nat option" where
  "radixOf ch =
     (if ch = 0x78 \<or> ch = 0x58 then Some 16
      else if ch = 0x6F \<or> ch = 0x4F then Some 8
      else if ch = 0x62 \<or> ch = 0x42 then Some 2
      else None)"

definition parseRadixLiteral :: "jsstring \<Rightarrow> jsnumber option" where
  "parseRadixLiteral t =
     (case t of
        z # x # ds \<Rightarrow>
          (case radixOf x of
             None \<Rightarrow> None
           | Some base \<Rightarrow>
               if z = 0x30 \<and> ds \<noteq> [] \<and> list_all (radixDigit base) ds
               then Some (toBinary64 (of_nat (radixValue base ds)))
               else None)
      | _ \<Rightarrow> None)"

definition parseExponent :: "jsstring \<Rightarrow> int option" where
  "parseExponent r =
     (case r of
        [] \<Rightarrow> Some 0
      | e # r' \<Rightarrow>
          if e = 0x65 \<or> e = 0x45
          then (let neg = (r' \<noteq> [] \<and> hd r' = 0x2D);
                    ds = (if r' \<noteq> [] \<and> (hd r' = 0x2D \<or> hd r' = 0x2B) then tl r' else r')
                in if ds \<noteq> [] \<and> list_all isDigit ds
                   then Some (if neg then - int (radixValue 10 ds) else int (radixValue 10 ds))
                   else None)
          else None)"

definition scale10 :: "nat \<Rightarrow> int \<Rightarrow> rat" where
  "scale10 m e = (if 0 \<le> e then of_nat m * 10 ^ nat e else of_nat m / 10 ^ nat (- e))"

definition parseUnsignedDecimal :: "jsstring \<Rightarrow> jsnumber option" where
  "parseUnsignedDecimal t =
     (if t = str ''Infinity'' then Some PosInf
      else (let ip = takeWhile isDigit t;
                r1 = dropWhile isDigit t;
                dot = (r1 \<noteq> [] \<and> hd r1 = 0x2E);
                fp = (if dot then takeWhile isDigit (tl r1) else []);
                r2 = (if dot then dropWhile isDigit (tl r1) else r1)
            in if ip = [] \<and> fp = [] then None
               else (case parseExponent r2 of
                       None \<Rightarrow> None
                     | Some e \<Rightarrow>
                         Some (toBinary64 (scale10 (radixValue 10 (ip @ fp)) (e - int (length fp)))))))"

definition negateNumber :: "jsnumber \<Rightarrow> jsnumber" where
  "negateNumber n = (case n of NaN \<Rightarrow> NaN | PosInf \<Rightarrow> NegInf | NegInf \<Rightarrow> PosInf | Fin r \<Rightarrow> Fin (- r))"

definition parseDecimal :: "jsstring \<Rightarrow> jsnumber option" where
  "parseDecimal t =
     (case t of
        [] \<Rightarrow> None
      | s # r \<Rightarrow>
          if s = 0x2B then parseUnsignedDecimal r
          else if s = 0x2D then map_option negateNumber (parseUnsignedDecimal r)
          else parseUnsignedDecimal t)"

definition stringToNumber :: "jsstring \<Rightarrow> jsnumber" where
  "stringToNumber s =
     (let t = trim s
      in if t = [] then Fin 0
         else (case parseRadixLiteral t of
                 Some v \<Rightarrow> v
               | None \<Rightarrow> (case parseDecimal t of Some v \<Rightarrow> v | None \<Rightarrow> NaN)))"

text \<open>
  \<open>Number(v)\<close>: an array or an object is first converted to a string, which may throw.
\<close>

definition toNumber :: "platform \<Rightarrow> json \<Rightarrow> error + jsnumber" where
  "toNumber P v =
     (case v of
        JNull \<Rightarrow> Inr (Fin 0)
      | JBool b \<Rightarrow> Inr (if b then Fin 1 else Fin 0)
      | JNum n \<Rightarrow> Inr n
      | JStr s \<Rightarrow> Inr (stringToNumber s)
      | JArr xs \<Rightarrow> andThen (toString P v) (\<lambda>s. Inr (stringToNumber s))
      | JObj kvs \<Rightarrow> andThen (toString P v) (\<lambda>s. Inr (stringToNumber s)))"

text \<open>
  The coercion of the field \<open>participants\<close>: \<open>Number(comp.participants ?? 0)\<close>, as a
  function of the value of the property (\<open>None\<close> when the property is absent).
\<close>

definition participantsOf :: "platform \<Rightarrow> json option \<Rightarrow> error + jsnumber" where
  "participantsOf P v = toNumber P (nullish v (JNum (Fin 0)))"

text \<open>
  The body of the \<open>try\<close> block after the parse, for the parsed value \<open>json\<close>:
  \<open>Inr None\<close> when the candidate is invalid and skipped, \<open>Inr (Some c)\<close> when the
  record \<open>c\<close> is pushed, and \<open>Inl TypeError\<close> when an exception goes to the
  \<open>catch\<close> of the loop: \<open>normalizeSpaces\<close> applied to a description that is not a
  string (it has no method \<open>replace\<close>), or a conversion that throws. The description
  is computed first, then the fields in the order of the object literal.
\<close>

definition descriptionOf :: "json option \<Rightarrow> error + jsstring" where
  "descriptionOf v =
     (case nullish v (JStr []) of JStr d \<Rightarrow> Inr (normalizeSpaces d) | _ \<Rightarrow> Inl TypeError)"

definition tagsOf :: "platform \<Rightarrow> json option \<Rightarrow> error + jsstring list" where
  "tagsOf P v = (case v of Some (JArr ts) \<Rightarrow> collect (map (toString P) ts) | _ \<Rightarrow> Inr [])"

definition buildCompetition :: "platform \<Rightarrow> json \<Rightarrow> error + Competition" where
  "buildCompetition P cv =
     andThen (descriptionOf (getProp cv (str ''description''))) (\<lambda>description'.
     andThen (String_of P (getProp cv (str ''id''))) (\<lambda>id'.
     andThen (String_of P (getProp cv (str ''title''))) (\<lambda>title'.
     andThen (toString P (nullish (getProp cv (str ''prize'')) (JStr []))) (\<lambda>prize'.
     andThen (toString P (nullish (getProp cv (str ''timeLeft'')) (JStr []))) (\<lambda>timeLeft'.
     andThen (toString P (nullish (getProp cv (str ''source'')) (JStr []))) (\<lambda>source'.
     andThen (participantsOf P (getProp cv (str ''participants''))) (\<lambda>participants'.
     andThen (tagsOf P (getProp cv (str ''tags''))) (\<lambda>tags'.
       Inr \<lparr> id_field = id', title = title', description = description', prize = prize',
             timeLeft = timeLeft', source = source', participants = participants',
             tags = tags' \<rparr>))))))))"

definition normalizeCandidate :: "platform \<Rightarrow> json \<Rightarrow> error + Competition option" where
  "normalizeCandidate P json =
     (case getProp json (str ''competition'') of
        None \<Rightarrow> Inr None
      | Some cv \<Rightarrow>
          if \<not> truthy (Some cv) \<or> \<not> truthy (getProp cv (str ''id''))
             \<or> \<not> truthy (getProp cv (str ''title''))
          then Inr None
          else (case buildCompetition P cv of Inl e \<Rightarrow> Inl e | Inr c \<Rightarrow> Inr (Some c)))"

section \<open>Marker scan\<close>

text \<open>The marker: a backslash, a quote and \<open>card-view-\<close>.\<close>

definition marker :: jsstring where
  "marker = [BACKSLASH, QUOTE] @ str ''card-view-''"

text \<open>
  One iteration of the \<open>while (true)\<close> loop of \<open>extractCompetitions\<close>, from the
  cursor \<open>searchIndex\<close> and the records collected so far: \<open>None\<close> when the loop is
  left by \<open>break\<close>, and otherwise the new cursor and the new list of records. An
  exception in the \<open>try\<close> block is caught and the cursor moves past the block.
\<close>

definition scanIteration ::
  "platform \<Rightarrow> jsstring \<Rightarrow> nat \<Rightarrow> Competition list \<Rightarrow> (nat \<times> Competition list) option" where
  "scanIteration P chunk searchIndex competitions =
     (case indexOf chunk marker searchIndex of
        None \<Rightarrow> None
      | Some markerIndex \<Rightarrow>
          (case indexOf chunk [LBRACE] markerIndex of
             None \<Rightarrow> None
           | Some objectStart \<Rightarrow>
               (case extractJsonBlock chunk objectStart of
                  None \<Rightarrow> Some (objectStart + 1, competitions)
                | Some raw \<Rightarrow>
                    if raw = [] then Some (objectStart + 1, competitions)
                    else (case parseCompetitionJson P raw of
                            Inl e \<Rightarrow> Some (objectStart + length raw, competitions)
                          | Inr json \<Rightarrow>
                              (case normalizeCandidate P json of
                                 Inl e \<Rightarrow> Some (objectStart + length raw, competitions)
                               | Inr None \<Rightarrow> Some (objectStart + length raw, competitions)
                               | Inr (Some c) \<Rightarrow>
                                   Some (objectStart + length raw, competitions @ [c]))))))"

text \<open>
  The loop itself. Nothing in its form says that it ends, so it is a partial function:
  \<open>None\<close> would be a run that never leaves the loop.
\<close>

partial_function (option) scanLoop ::
  "platform \<Rightarrow> jsstring \<Rightarrow> nat \<Rightarrow> Competition list \<Rightarrow> Competition list option" where
  "scanLoop P chunk searchIndex competitions =
     (case scanIteration P chunk searchIndex competitions of
        None \<Rightarrow> Some competitions
      | Some next \<Rightarrow> scanLoop P chunk (fst next) (snd next))"

declare scanLoop.simps [code]

text \<open>
  \<open>extractCompetitions\<close>, from the result of \<open>decodeCompetitionChunk\<close>: no chunk
  (\<open>null\<close>, or an empty string) gives no record.
\<close>

definition extractFromChunk :: "platform \<Rightarrow> jsstring option \<Rightarrow> Competition list option" where
  "extractFromChunk P chunk =
     (case chunk of
        None \<Rightarrow> Some []
      | Some ch \<Rightarrow> if ch = [] then Some [] else scanLoop P ch 0 [])"

section \<open>Example inputs\<close>

text \<open>
  In the decoded chunk every quote of the payload is still escaped. \<open>validBlock\<close> is the
  block of a candidate with the id \<open>a\<close> and the title \<open>t\<close>, and \<open>untitledBlock\<close>
  that of a candidate with the id \<open>b\<close> and no title; \<open>validJson\<close> and
  \<open>untitledJson\<close> are the values that \<open>JSON.parse\<close> returns for them once the
  quotes are unescaped. \<open>examplePlatform\<close> parses these two texts and throws on any
  other.
\<close>

definition ESCAPED_QUOTE :: jsstring where
  "ESCAPED_QUOTE = [BACKSLASH, QUOTE]"

definition validBlock :: jsstring where
  "validBlock =
     [LBRACE] @ ESCAPED_QUOTE @ str ''competition'' @ ESCAPED_QUOTE @ str '':'' @ [LBRACE]
     @ ESCAPED_QUOTE @ str ''id'' @ ESCAPED_QUOTE @ str '':'' @ ESCAPED_QUOTE @ str ''a''
     @ ESCAPED_QUOTE @ str '','' @ ESCAPED_QUOTE @ str ''title'' @ ESCAPED_QUOTE @ str '':''
     @ ESCAPED_QUOTE @ str ''t'' @ ESCAPED_QUOTE @ [RBRACE, RBRACE]"

definition untitledBlock :: jsstring where
  "untitledBlock =
     [LBRACE] @ ESCAPED_QUOTE @ str ''competition'' @ ESCAPED_QUOTE @ str '':'' @ [LBRACE]
     @ ESCAPED_QUOTE @ str ''id'' @ ESCAPED_QUOTE @ str '':'' @ ESCAPED_QUOTE @ str ''b''
     @ ESCAPED_QUOTE @ [RBRACE, RBRACE]"

definition validJson :: json where
  "validJson = JObj [(str ''competition'',
                      JObj [(str ''id'', JStr (str ''a'')), (str ''title'', JStr (str ''t''))])]"

definition untitledJson :: json where
  "untitledJson = JObj [(str ''competition'', JObj [(str ''id'', JStr (str ''b''))])]"

definition examplePlatform :: platform where
  "examplePlatform =
     \<lparr> JSON_parse = (\<lambda>s. if s = unescapeQuotes validBlock then Some validJson
                          else if s = unescapeQuotes untitledBlock then Some untitledJson
                          else None),
       Number_toString = (\<lambda>n. case n of
                                 NaN \<Rightarrow> str ''NaN''
                               | PosInf \<Rightarrow> str ''Infinity''
                               | NegInf \<Rightarrow> str ''-Infinity''
                               | Fin r \<Rightarrow> intToString \<lfloor>r\<rfloor>) \<rparr>"

text \<open>
  A chunk with two marker occurrences, where the brace after the first is never closed;
  a chunk with a valid candidate followed by a candidate without title; and a chunk with
  the same two candidates in the other order.
\<close>

definition unbalancedChunk :: jsstring where
  "unbalancedChunk =
     marker @ str ''1'' @ ESCAPED_QUOTE @ str '':'' @ [LBRACE]
     @ marker @ str ''2'' @ ESCAPED_QUOTE @ str '':'' @ validBlock"

definition twoCandidatesChunk :: jsstring where
  "twoCandidatesChunk =
     marker @ str ''1'' @ ESCAPED_QUOTE @ str '':'' @ validBlock @ str '',''
     @ marker @ str ''2'' @ ESCAPED_QUOTE @ str '':'' @ untitledBlock"

definition untitledFirstChunk :: jsstring where
  "untitledFirstChunk =
     marker @ str ''1'' @ ESCAPED_QUOTE @ str '':'' @ untitledBlock @ str '',''
     @ marker @ str ''2'' @ ESCAPED_QUOTE @ str '':'' @ validBlock"

section \<open>Notions used to state the properties of the decoder and the normalizer\<close>

text \<open>
  The decoder as the specification words it: on a failure of the first attempt, the
  sanitized string is read as bytes and decoded, then the quotes are unescaped and the
  result is parsed.
\<close>

definition specParseCompetitionJson :: "platform \<Rightarrow> jsstring \<Rightarrow> error + json" where
  "specParseCompetitionJson P raw =
     (let sanitized = sanitizeJsonString raw
      in case JSON_parse P (unescapeQuotes sanitized) of
           Some v \<Rightarrow> Inr v
         | None \<Rightarrow>
             (case JSON_parse P (unescapeQuotes (utf8Decode (toBytes sanitized))) of
                Some v \<Rightarrow> Inr v
              | None \<Rightarrow> Inl SyntaxError))"

text \<open>
  The values that count as false: \<open>null\<close>, \<open>false\<close>, 0, \<open>NaN\<close> and the empty
  string. A property is missing or falsy when it is \<open>undefined\<close> or one of these.
\<close>

definition falsyValues :: "json list" where
  "falsyValues = [JNull, JBool False, JNum (Fin 0), JNum NaN, JStr []]"

definition missingOrFalsy :: "json option \<Rightarrow> bool" where
  "missingOrFalsy v = (case v of None \<Rightarrow> True | Some x \<Rightarrow> x \<in> set falsyValues)"

definition isAsciiLetter :: "jschar \<Rightarrow> bool" where
  "isAsciiLetter ch \<longleftrightarrow> (0x41 \<le> ch \<and> ch \<le> 0x5A) \<or> (0x61 \<le> ch \<and> ch \<le> 0x7A)"

text \<open>
  Candidates for the examples: a candidate with id \<open>a\<close>, title \<open>t\<close> and a given
  participants value, and the record with a given participants number that has this id
  and title.
\<close>

definition candidateWith :: "json \<Rightarrow> json" where
  "candidateWith v =
     JObj [(str ''competition'',
            JObj [(str ''id'', JStr (str ''a'')), (str ''title'', JStr (str ''t'')),
                  (str ''participants'', v)])]"

definition recordWith :: "jsnumber \<Rightarrow> Competition" where
  "recordWith n =
     \<lparr> id_field = str ''a'', title = str ''t'', description = [], prize = [], timeLeft = [],
       source = [], participants = n, tags = [] \<rparr>"

section \<open>Properties of the deduplication gate\<close>

lemma fresh_fold:
  assumes "\<forall>j < length xs. cs ! (k + j) = xs ! j"
  shows "foldl (\<lambda>fresh (val, index). if val = None then fresh @ [cs ! index] else fresh)
           acc (zip (map g xs) [k..<k + length xs])
         = acc @ filter (\<lambda>c. g c = None) xs"
  using assms
proof (induction xs arbitrary: k acc)
  case Nil
  then show ?case by simp
next
  case (Cons x xs)
  have hd: "cs ! k = x"
    using Cons.prems by (metis add.right_neutral length_greater_0_conv list.distinct(1) nth_Cons_0)
  have tl: "\<forall>j < length xs. cs ! (Suc k + j) = xs ! j"
  proof (intro allI impI)
    fix j assume "j < length xs"
    then have "cs ! (k + Suc j) = (x # xs) ! Suc j"
      using Cons.prems by (metis Suc_less_eq length_Cons)
    then show "cs ! (Suc k + j) = xs ! j" by simp
  qed
  have "k < k + length (x # xs)" by simp
  from upt_conv_Cons [OF this]
  have upt: "[k..<k + length (x # xs)] = k # [Suc k..<Suc k + length xs]"
    by simp
  show ?case
    unfolding upt using Cons.IH [OF tl] hd by simp
qed

lemma filterNew_filter:
  "filterNewCompetitions env competitions =
     (case COMPETITION_KV env of
        None \<Rightarrow> competitions
      | Some kv \<Rightarrow> filter (\<lambda>c. kv (seenKey c) = None) competitions)"
proof (cases "COMPETITION_KV env")
  case None
  then show ?thesis by (simp add: filterNewCompetitions_def)
next
  case (Some kv)
  have "foldl (\<lambda>fresh (val, index). if val = None then fresh @ [competitions ! index] else fresh)
          [] (zip (map (\<lambda>c. kv (seenKey c)) competitions) [0..<0 + length competitions])
        = [] @ filter (\<lambda>c. kv (seenKey c) = None) competitions"
    by (rule fresh_fold) simp
  then show ?thesis using Some by (simp add: filterNewCompetitions_def)
qed

text \<open>
  Claim C7. With a configured store, the gate returns exactly the input records whose key
  \<open>seen:<id>\<close> has no stored marker, in the order of the input; in particular, where
  the record \<open>a\<close> has a marker and \<open>b\<close> has none, filtering \<open>[a, b]\<close> gives \<open>[b]\<close>.
\<close>

theorem filterNewCompetitions_unseen:
  "COMPETITION_KV env = Some kv \<Longrightarrow>
     filterNewCompetitions env competitions = filter (\<lambda>c. kv (seenKey c) = None) competitions
     \<and> (kv (seenKey a) \<noteq> None \<and> kv (seenKey b) = None \<longrightarrow>
          filterNewCompetitions env [a, b] = [b])"
  by (simp add: filterNew_filter)

theorem filterNewCompetitions_unseen_witness:
  "COMPETITION_KV \<lparr> COMPETITION_KV = Some [str ''seen:A'' \<mapsto> str ''{}''], TARGET_URL = None,
       COMPETITION_PAGE_BASE = None, TELEGRAM_BOT_TOKEN = None, TELEGRAM_CHAT_ID = None \<rparr>
     = Some [str ''seen:A'' \<mapsto> str ''{}'']
   \<and> [str ''seen:A'' \<mapsto> str ''{}'']
         (seenKey \<lparr> id_field = str ''A'', title = str ''first'', description = [], prize = [],
            timeLeft = [], source = [], participants = Fin 0, tags = [] \<rparr>) \<noteq> None
   \<and> [str ''seen:A'' \<mapsto> str ''{}'']
         (seenKey \<lparr> id_field = str ''B'', title = str ''second'', description = [], prize = [],
            timeLeft = [], source = [], participants = Fin 0, tags = [] \<rparr>) = None
   \<and> filterNewCompetitions
         \<lparr> COMPETITION_KV = Some [str ''seen:A'' \<mapsto> str ''{}''], TARGET_URL = None,
           COMPETITION_PAGE_BASE = None, TELEGRAM_BOT_TOKEN = None, TELEGRAM_CHAT_ID = None \<rparr>
         [\<lparr> id_field = str ''A'', title = str ''first'', description = [], prize = [],
            timeLeft = [], source = [], participants = Fin 0, tags = [] \<rparr>,
          \<lparr> id_field = str ''B'', title = str ''second'', description = [], prize = [],
            timeLeft = [], source = [], participants = Fin 0, tags = [] \<rparr>]
       = [\<lparr> id_field = str ''B'', title = str ''second'', description = [], prize = [],
            timeLeft = [], source = [], participants = Fin 0, tags = [] \<rparr>]"
  using filterNewCompetitions_unseen
    [of "\<lparr> COMPETITION_KV = Some [str ''seen:A'' \<mapsto> str ''{}''], TARGET_URL = None,
           COMPETITION_PAGE_BASE = None, TELEGRAM_BOT_TOKEN = None, TELEGRAM_CHAT_ID = None \<rparr>"
        "[str ''seen:A'' \<mapsto> str ''{}'']"
        "[]"
        "\<lparr> id_field = str ''A'', title = str ''first'', description = [], prize = [],
            timeLeft = [], source = [], participants = Fin 0, tags = [] \<rparr>"
        "\<lparr> id_field = str ''B'', title = str ''second'', description = [], prize = [],
            timeLeft = [], source = [], participants = Fin 0, tags = [] \<rparr>"]
  by (simp add: seenKey_def str_def)

text \<open>
  Claim C8. When the KV binding is not configured, the gate returns its whole input,
  unchanged.
\<close>

theorem filterNewCompetitions_no_store:
  "COMPETITION_KV env = None \<Longrightarrow> filterNewCompetitions env competitions = competitions"
  by (simp add: filterNewCompetitions_def)

theorem filterNewCompetitions_no_store_witness:
  "COMPETITION_KV \<lparr> COMPETITION_KV = None, TARGET_URL = None, COMPETITION_PAGE_BASE = None,
       TELEGRAM_BOT_TOKEN = None, TELEGRAM_CHAT_ID = None \<rparr> = None
   \<and> filterNewCompetitions
         \<lparr> COMPETITION_KV = None, TARGET_URL = None, COMPETITION_PAGE_BASE = None,
           TELEGRAM_BOT_TOKEN = None, TELEGRAM_CHAT_ID = None \<rparr>
         [\<lparr> id_field = str ''A'', title = str ''first'', description = [], prize = [],
            timeLeft = [], source = [], participants = Fin 0, tags = [] \<rparr>]
       = [\<lparr> id_field = str ''A'', title = str ''first'', description = [], prize = [],
            timeLeft = [], source = [], participants = Fin 0, tags = [] \<rparr>]"
  using filterNewCompetitions_no_store
    [of "\<lparr> COMPETITION_KV = None, TARGET_URL = None, COMPETITION_PAGE_BASE = None,
           TELEGRAM_BOT_TOKEN = None, TELEGRAM_CHAT_ID = None \<rparr>"
        "[\<lparr> id_field = str ''A'', title = str ''first'', description = [], prize = [],
            timeLeft = [], source = [], participants = Fin 0, tags = [] \<rparr>]"]
  by simp

text \<open>
  Claim C10. The output of the gate is a subsequence of its input: it is obtained by
  deleting elements, so the relative order is kept and no record occurs more often in the
  output than in the input.
\<close>

theorem filterNewCompetitions_subseq:
  "subseq (filterNewCompetitions env competitions) competitions
   \<and> (\<forall>c. count_list (filterNewCompetitions env competitions) c \<le> count_list competitions c)"
proof -
  have count_filter: "count_list (filter P xs) c \<le> count_list xs c"
    for P :: "Competition \<Rightarrow> bool" and xs c
    by (induction xs) auto
  show ?thesis
    by (cases "COMPETITION_KV env") (simp_all add: filterNew_filter count_filter)
qed

theorem filterNewCompetitions_subseq_witness:
  "subseq
     (filterNewCompetitions
        \<lparr> COMPETITION_KV = Some [str ''seen:A'' \<mapsto> str ''{}''], TARGET_URL = None,
          COMPETITION_PAGE_BASE = None, TELEGRAM_BOT_TOKEN = None, TELEGRAM_CHAT_ID = None \<rparr>
        [\<lparr> id_field = str ''B'', title = str ''second'', description = [], prize = [],
           timeLeft = [], source = [], participants = Fin 0, tags = [] \<rparr>,
         \<lparr> id_field = str ''A'', title = str ''first'', description = [], prize = [],
           timeLeft = [], source = [], participants = Fin 0, tags = [] \<rparr>,
         \<lparr> id_field = str ''B'', title = str ''second'', description = [], prize = [],
           timeLeft = [], source = [], participants = Fin 0, tags = [] \<rparr>])
     [\<lparr> id_field = str ''B'', title = str ''second'', description = [], prize = [],
        timeLeft = [], source = [], participants = Fin 0, tags = [] \<rparr>,
      \<lparr> id_field = str ''A'', title = str ''first'', description = [], prize = [],
        timeLeft = [], source = [], participants = Fin 0, tags = [] \<rparr>,
      \<lparr> id_field = str ''B'', title = str ''second'', description = [], prize = [],
        timeLeft = [], source = [], participants = Fin 0, tags = [] \<rparr>]"
  using filterNewCompetitions_subseq
    [of "\<lparr> COMPETITION_KV = Some [str ''seen:A'' \<mapsto> str ''{}''], TARGET_URL = None,
          COMPETITION_PAGE_BASE = None, TELEGRAM_BOT_TOKEN = None, TELEGRAM_CHAT_ID = None \<rparr>"
        "[\<lparr> id_field = str ''B'', title = str ''second'', description = [], prize = [],
           timeLeft = [], source = [], participants = Fin 0, tags = [] \<rparr>,
         \<lparr> id_field = str ''A'', title = str ''first'', description = [], prize = [],
           timeLeft = [], source = [], participants = Fin 0, tags = [] \<rparr>,
         \<lparr> id_field = str ''B'', title = str ''second'', description = [], prize = [],
           timeLeft = [], source = [], participants = Fin 0, tags = [] \<rparr>]"]
  by simp

section \<open>Properties of the batcher\<close>

lemma decimalAcc_digitsOf: "decimalAcc n acc = digitsOf n @ acc"
proof (induction n acc rule: decimalAcc.induct)
  case (1 n acc)
  show ?case
  proof (cases "n < 10")
    case True
    then show ?thesis by (simp add: decimalAcc.simps [of n] digitsOf.simps [of n])
  next
    case False
    then show ?thesis
      using "1" by (simp add: decimalAcc.simps [of n] digitsOf.simps [of n])
  qed
qed

lemma intToString_decimal: "intToString (int n) = decimal n"
  by (simp add: intToString_def decimal_def decimalAcc_digitsOf)

lemma buildHeader_plain: "buildHeader (int n) None None = specHeader n None"
  by (simp add: buildHeader_def specHeader_def intToString_decimal NEWLINE_def)

lemma buildHeader_range:
  "buildHeader (int n) (Some (int lo)) (Some (int hi)) = specHeader n (Some (lo, hi))"
  by (simp add: buildHeader_def specHeader_def intToString_decimal NEWLINE_def BACKSLASH_def str_def)

lemma join_blankLines:
  "sep = [0x0A, 0x0A] \<Longrightarrow> join sep blocks = blankLineJoined blocks"
  by (induction sep blocks rule: join.induct) (auto simp: blankLineJoined_def)

lemma join_blankLineJoined: "join separator blocks = blankLineJoined blocks"
  by (rule join_blankLines) (simp add: separator_def NEWLINE_def)

lemma digitsOf_ne: "digitsOf n \<noteq> []"
  by (simp add: digitsOf.simps [of n])

lemma readDecimal_digitsOf:
  "foldl (\<lambda>a ch. 10 * a + (unat ch - 48)) k (digitsOf n) = k * 10 ^ length (digitsOf n) + n"
proof (induction n arbitrary: k rule: digitsOf.induct)
  case (1 n)
  show ?case
  proof (cases "n < 10")
    case True
    then have "unat (of_nat (48 + n) :: jschar) = 48 + n"
      by (simp only: unat_of_nat) simp
    then show ?thesis using True by (simp add: digitsOf.simps [of n])
  next
    case False
    have "n mod 10 < 10" by simp
    then have "48 + n mod 10 < 2 ^ LENGTH(16)" by simp
    then have d: "unat (of_nat (48 + n mod 10) :: jschar) = 48 + n mod 10"
      by (simp only: unat_of_nat mod_less)
    have "foldl (\<lambda>a ch. 10 * a + (unat ch - 48)) k (digitsOf n)
            = 10 * (k * 10 ^ length (digitsOf (n div 10)) + n div 10) + n mod 10"
      using False "1" [OF False, of k] d by (simp add: digitsOf.simps [of n])
    also have "\<dots> = k * 10 ^ length (digitsOf n) + n"
      using False by (simp add: digitsOf.simps [of n] algebra_simps)
    finally show ?thesis .
  qed
qed

lemma readDecimal_decimal: "readDecimal (decimal n) = n"
  by (simp add: readDecimal_def decimal_def decimalAcc_digitsOf readDecimal_digitsOf)

lemma rangeHeader_append:
  "k < length ds \<Longrightarrow> rangeHeader t (ds @ es) k = rangeHeader t ds k"
  by (simp add: rangeHeader_def)

lemma rangeMessages_snoc:
  "rangeMessages t (ds @ [b]) = rangeMessages t ds @ [rangeHeader t (ds @ [b]) (length ds) @ join separator b]"
  by (simp add: rangeMessages_def rangeHeader_append nth_append)

lemma batchStep_close:
  assumes "wouldBe totalCount baseUrl c i cur > TELEGRAM_MAX_LENGTH" and "cur \<noteq> []"
  shows "batchStep totalCount baseUrl c i messages cur =
     (messages @ [(if totalCount = int (length cur) then buildHeader totalCount None None
                   else buildHeader totalCount (Some (int i - int (length cur) + 1)) (Some (int i)))
                  @ join separator cur],
      [formatCompetition c baseUrl])"
  using assms unfolding batchStep_def wouldBe_def Let_def by simp

lemma batchStep_push:
  assumes "\<not> (wouldBe totalCount baseUrl c i cur > TELEGRAM_MAX_LENGTH \<and> cur \<noteq> [])"
  shows "batchStep totalCount baseUrl c i messages cur = (messages, cur @ [formatCompetition c baseUrl])"
  using assms unfolding batchStep_def wouldBe_def Let_def by auto


lemma length_rangeMessages: "length (rangeMessages t ds) = length ds"
  by (simp add: rangeMessages_def)

lemma length_join: "length (join sep xs) = sum_list (map length xs) + length sep * (length xs - 1)"
  by (induction sep xs rule: join.induct) auto

lemma plain_header_le:
  "length (buildHeader t None None) \<le> length (buildHeader t (Some s) (Some e))"
  by (simp add: buildHeader_def)

lemma header_choice_le:
  "length (if b then buildHeader t None None else buildHeader t (Some s) (Some e))
     \<le> length (buildHeader t (Some s) (Some e))"
  using plain_header_le by simp

lemma closedFit_snoc:
  assumes "closedFit t ds"
    and "2 \<le> length b \<longrightarrow>
           length (rangeHeader t (ds @ [b]) (length ds) @ join separator b) \<le> TELEGRAM_MAX_LENGTH"
  shows "closedFit t (ds @ [b])"
  unfolding closedFit_def
proof (intro allI impI)
  fix k assume k: "k < length (ds @ [b])" and two: "2 \<le> length ((ds @ [b]) ! k)"
  show "length (rangeHeader t (ds @ [b]) k @ join separator ((ds @ [b]) ! k)) \<le> TELEGRAM_MAX_LENGTH"
  proof (cases "k < length ds")
    case True
    then show ?thesis
      using assms(1) two by (simp add: closedFit_def rangeHeader_append nth_append)
  next
    case False
    then have "k = length ds" using k by simp
    then show ?thesis using assms(2) two by simp
  qed
qed

lemma batchStep_inv:
  assumes tot: "totalCount = int (i + Suc n)"
    and i: "i = length (concat ds) + length cur"
    and msgs: "messages = rangeMessages totalCount ds"
    and ne: "[] \<notin> set ds"
    and op: "openFits totalCount i cur"
    and cl: "closedFit totalCount ds"
  shows "\<exists>ds' cur'. batchStep totalCount baseUrl c i messages cur = (rangeMessages totalCount ds', cur')
           \<and> concat ds' @ cur' = concat ds @ cur @ [formatCompetition c baseUrl]
           \<and> [] \<notin> set ds' \<and> cur' \<noteq> []
           \<and> openFits totalCount (Suc i) cur' \<and> closedFit totalCount ds'"
proof (cases "wouldBe totalCount baseUrl c i cur > TELEGRAM_MAX_LENGTH \<and> cur \<noteq> []")
  case True
  then have curne: "cur \<noteq> []" by simp
  have neq: "totalCount \<noteq> int (length cur)" using tot i by simp
  have hdr: "buildHeader totalCount (Some (int i - int (length cur) + 1)) (Some (int i))
               = rangeHeader totalCount (ds @ [cur]) (length ds)"
    using i by (simp add: rangeHeader_def)
  have step: "batchStep totalCount baseUrl c i messages cur =
     (rangeMessages totalCount (ds @ [cur]), [formatCompetition c baseUrl])"
    using batchStep_close [of totalCount baseUrl c i cur messages] True neq hdr msgs
    by (simp add: rangeMessages_snoc)
  have "2 \<le> length cur \<longrightarrow>
          length (rangeHeader totalCount (ds @ [cur]) (length ds) @ join separator cur)
            \<le> TELEGRAM_MAX_LENGTH"
    using op unfolding openFits_def hdr by simp
  then have cl': "closedFit totalCount (ds @ [cur])"
    by (rule closedFit_snoc [OF cl])
  show ?thesis
  proof (intro exI conjI)
    show "batchStep totalCount baseUrl c i messages cur =
            (rangeMessages totalCount (ds @ [cur]), [formatCompetition c baseUrl])"
      by (rule step)
    show "concat (ds @ [cur]) @ [formatCompetition c baseUrl]
            = concat ds @ cur @ [formatCompetition c baseUrl]" by simp
    show "[] \<notin> set (ds @ [cur])" using ne curne by simp
    show "[formatCompetition c baseUrl] \<noteq> []" by simp
    show "openFits totalCount (Suc i) [formatCompetition c baseUrl]"
      by (simp add: openFits_def)
    show "closedFit totalCount (ds @ [cur])" by (rule cl')
  qed
next
  case False
  then have step: "batchStep totalCount baseUrl c i messages cur
                     = (rangeMessages totalCount ds, cur @ [formatCompetition c baseUrl])"
    using batchStep_push [of totalCount baseUrl c i cur messages] msgs by simp
  have op': "openFits totalCount (Suc i) (cur @ [formatCompetition c baseUrl])"
  proof (cases "cur = []")
    case True
    then show ?thesis by (simp add: openFits_def)
  next
    case ne: False
    then have w: "wouldBe totalCount baseUrl c i cur \<le> TELEGRAM_MAX_LENGTH" using False by simp
    have start: "int (Suc i) - int (length (cur @ [formatCompetition c baseUrl])) + 1
                   = int i - int (length cur) + 1" by simp
    have "length (join separator (cur @ [formatCompetition c baseUrl]))
            = sum_list (map length cur) + length separator * length cur
              + length (formatCompetition c baseUrl)"
      by (simp add: length_join)
    then have "length (buildHeader totalCount (Some (int i - int (length cur) + 1)) (Some (int i + 1)))
                 + length (join separator (cur @ [formatCompetition c baseUrl])) \<le> TELEGRAM_MAX_LENGTH"
      using w by (simp add: wouldBe_def)
    then show ?thesis unfolding openFits_def start by (simp add: add.commute)
  qed
  show ?thesis
  proof (intro exI conjI)
    show "batchStep totalCount baseUrl c i messages cur
            = (rangeMessages totalCount ds, cur @ [formatCompetition c baseUrl])"
      by (rule step)
    show "concat ds @ cur @ [formatCompetition c baseUrl]
            = concat ds @ cur @ [formatCompetition c baseUrl]" by simp
    show "[] \<notin> set ds" by (rule ne)
    show "cur @ [formatCompetition c baseUrl] \<noteq> []" by simp
    show "openFits totalCount (Suc i) (cur @ [formatCompetition c baseUrl])" by (rule op')
    show "closedFit totalCount ds" by (rule cl)
  qed
qed

lemma batchLoop_inv:
  assumes "totalCount = int (i + length rest)"
    and "i = length (concat ds) + length cur"
    and "messages = rangeMessages totalCount ds"
    and "[] \<notin> set ds"
    and "openFits totalCount i cur"
    and "closedFit totalCount ds"
    and "rest = [] \<longrightarrow> cur \<noteq> []"
  shows "\<exists>ds' cur'. batchLoop totalCount baseUrl rest i messages cur = (rangeMessages totalCount ds', cur')
           \<and> concat ds' @ cur' = concat ds @ cur @ map (\<lambda>c. formatCompetition c baseUrl) rest
           \<and> [] \<notin> set ds' \<and> cur' \<noteq> []
           \<and> openFits totalCount (i + length rest) cur' \<and> closedFit totalCount ds'"
  using assms
proof (induction rest arbitrary: i messages cur ds)
  case Nil
  then show ?case by auto
next
  case (Cons c rest)
  from batchStep_inv [of totalCount i "length rest" ds cur messages baseUrl c] Cons.prems
  obtain ds1 cur1 where
    step: "batchStep totalCount baseUrl c i messages cur = (rangeMessages totalCount ds1, cur1)"
    and cat: "concat ds1 @ cur1 = concat ds @ cur @ [formatCompetition c baseUrl]"
    and ne1: "[] \<notin> set ds1" and cur1: "cur1 \<noteq> []"
    and op1: "openFits totalCount (Suc i) cur1" and cl1: "closedFit totalCount ds1"
    by auto
  have len: "Suc i = length (concat ds1) + length cur1"
  proof -
    have "length (concat ds1 @ cur1) = length (concat ds @ cur @ [formatCompetition c baseUrl])"
      using cat by simp
    then show ?thesis using Cons.prems(2) by simp
  qed
  have tot: "totalCount = int (Suc i + length rest)" using Cons.prems(1) by simp
  have c1: "rest = [] \<longrightarrow> cur1 \<noteq> []" using cur1 by simp
  from Cons.IH [OF tot len refl ne1 op1 cl1 c1]
  obtain ds' cur' where
    loop: "batchLoop totalCount baseUrl rest (Suc i) (rangeMessages totalCount ds1) cur1
             = (rangeMessages totalCount ds', cur')"
    and cat': "concat ds' @ cur' = concat ds1 @ cur1 @ map (\<lambda>c. formatCompetition c baseUrl) rest"
    and ne': "[] \<notin> set ds'" and cur': "cur' \<noteq> []"
    and op': "openFits totalCount (Suc i + length rest) cur'" and cl': "closedFit totalCount ds'"
    by blast
  show ?case
  proof (intro exI conjI)
    show "batchLoop totalCount baseUrl (c # rest) i messages cur = (rangeMessages totalCount ds', cur')"
      using step loop by simp
    show "concat ds' @ cur' = concat ds @ cur @ map (\<lambda>c. formatCompetition c baseUrl) (c # rest)"
      using cat' cat by (metis append.assoc append_Cons append_Nil list.simps(9))
    show "[] \<notin> set ds'" by (rule ne')
    show "cur' \<noteq> []" by (rule cur')
    show "openFits totalCount (i + length (c # rest)) cur'" using op' by simp
    show "closedFit totalCount ds'" by (rule cl')
  qed
qed

lemma rangeHeader_spec:
  "rangeHeader (int n) bs k = specHeader n (Some (firstPosition bs k, lastPosition bs k))"
proof -
  have "int (length (concat (take k bs))) + 1 = int (firstPosition bs k)"
    by (simp add: firstPosition_def)
  moreover have "int (length (concat (take (Suc k) bs))) = int (lastPosition bs k)"
    by (simp add: lastPosition_def)
  ultimately show ?thesis
    unfolding rangeHeader_def by (simp only: buildHeader_range)
qed

lemma specMessages_many:
  assumes "length bs \<noteq> 1"
  shows "map (specMessage n bs) [0..<length bs] = rangeMessages (int n) bs"
  using assms
  by (simp add: specMessage_def rangeMessages_def rangeHeader_spec join_blankLineJoined)

lemma buildTelegramMessages_batches:
  "\<exists>batches.
     concat batches = map (\<lambda>c. formatCompetition c baseUrl) competitions
     \<and> [] \<notin> set batches
     \<and> buildTelegramMessages competitions baseUrl
         = map (specMessage (length competitions) batches) [0..<length batches]
     \<and> (\<forall>k < length batches. 2 \<le> length (batches ! k) \<longrightarrow>
           length (specMessage (length competitions) batches k) \<le> TELEGRAM_MAX_LENGTH)"
proof (cases "competitions = []")
  case True
  have "buildTelegramMessages [] baseUrl = []"
    by (simp add: buildTelegramMessages_def)
  then show ?thesis using True by (intro exI [of _ "[]"]) simp
next
  case False
  let ?n = "length competitions"
  let ?t = "int ?n"
  have "\<exists>ds' cur'. batchLoop ?t baseUrl competitions 0 [] [] = (rangeMessages ?t ds', cur')
           \<and> concat ds' @ cur' = concat [] @ [] @ map (\<lambda>c. formatCompetition c baseUrl) competitions
           \<and> [] \<notin> set ds' \<and> cur' \<noteq> []
           \<and> openFits ?t (0 + length competitions) cur' \<and> closedFit ?t ds'"
    by (rule batchLoop_inv) (use False in \<open>simp_all add: rangeMessages_def openFits_def closedFit_def\<close>)
  then obtain ds cur where
    loop: "batchLoop ?t baseUrl competitions 0 [] [] = (rangeMessages ?t ds, cur)"
    and cat: "concat ds @ cur = map (\<lambda>c. formatCompetition c baseUrl) competitions"
    and ne: "[] \<notin> set ds" and cur: "cur \<noteq> []"
    and op: "openFits ?t ?n cur" and cl: "closedFit ?t ds"
    by auto
  have lens: "length (concat ds) + length cur = ?n"
  proof -
    have "length (concat ds @ cur) = length (map (\<lambda>c. formatCompetition c baseUrl) competitions)"
      using cat by simp
    then show ?thesis by simp
  qed
  have last: "buildHeader ?t (Some (?t - int (length cur) + 1)) (Some ?t)
               = rangeHeader ?t (ds @ [cur]) (length ds)"
  proof -
    have "?t - int (length cur) + 1 = int (length (concat ds)) + 1" using lens by linarith
    moreover have "?t = int (length (concat (take (Suc (length ds)) (ds @ [cur]))))"
      using lens by simp
    ultimately show ?thesis by (simp add: rangeHeader_def)
  qed
  let ?bs = "ds @ [cur]"
  have msgs: "buildTelegramMessages competitions baseUrl =
          rangeMessages ?t ds @
          [(if ds = [] then buildHeader ?t None None
            else rangeHeader ?t ?bs (length ds)) @ join separator cur]"
    using loop cur last by (simp add: buildTelegramMessages_def Let_def length_rangeMessages)
  have cl': "closedFit ?t ?bs"
  proof (rule closedFit_snoc [OF cl])
    show "2 \<le> length cur \<longrightarrow>
            length (rangeHeader ?t ?bs (length ds) @ join separator cur) \<le> TELEGRAM_MAX_LENGTH"
      using op unfolding openFits_def last by simp
  qed
  have eq: "buildTelegramMessages competitions baseUrl = map (specMessage ?n ?bs) [0..<length ?bs]"
  proof (cases "ds = []")
    case True
    then show ?thesis
      using msgs
      by (simp add: specMessage_def rangeMessages_def buildHeader_plain join_blankLineJoined)
  next
    case False
    then have "length ?bs \<noteq> 1" by simp
    from specMessages_many [OF this, of ?n] show ?thesis
      using msgs False by (simp add: rangeMessages_snoc)
  qed
  have fit: "\<forall>k < length ?bs. 2 \<le> length (?bs ! k) \<longrightarrow>
               length (specMessage ?n ?bs k) \<le> TELEGRAM_MAX_LENGTH"
  proof (intro allI impI)
    fix k assume k: "k < length ?bs" and two: "2 \<le> length (?bs ! k)"
    from cl' k two have r: "length (rangeHeader ?t ?bs k @ join separator (?bs ! k)) \<le> TELEGRAM_MAX_LENGTH"
      by (simp add: closedFit_def)
    show "length (specMessage ?n ?bs k) \<le> TELEGRAM_MAX_LENGTH"
    proof (cases "length ?bs = 1")
      case True
      have "length (buildHeader ?t None None) \<le> length (rangeHeader ?t ?bs k)"
        unfolding rangeHeader_def by (rule plain_header_le)
      then show ?thesis
        using True r
        by (simp add: specMessage_def buildHeader_plain [symmetric] join_blankLineJoined [symmetric])
    next
      case False
      then show ?thesis
        using r
        by (simp add: specMessage_def rangeHeader_spec [symmetric] join_blankLineJoined [symmetric])
    qed
  qed
  have "concat ?bs = map (\<lambda>c. formatCompetition c baseUrl) competitions" using cat by simp
  moreover have "[] \<notin> set ?bs" using ne cur by simp
  ultimately show ?thesis using eq fit by blast
qed

text \<open>
  Claim C1. For a non-empty list of records there are batches, none of them empty, whose
  concatenation is the list of the formatted blocks of the records in their order, and the
  messages are, batch by batch, a header followed by the blocks of the batch with a blank
  line between them. Every header prints, in decimal, the number of records as its total;
  a single message has the plain header, and otherwise the header of each message prints
  the 1-based positions in the whole list of the first and the last record of its batch.
\<close>

theorem buildTelegramMessages_covers:
  assumes "competitions \<noteq> []"
  shows "\<exists>batches.
           batches \<noteq> []
           \<and> concat batches = map (\<lambda>c. formatCompetition c baseUrl) competitions
           \<and> [] \<notin> set batches
           \<and> buildTelegramMessages competitions baseUrl
               = map (specMessage (length competitions) batches) [0..<length batches]"
proof -
  from buildTelegramMessages_batches [of baseUrl competitions]
  obtain batches where
    b: "concat batches = map (\<lambda>c. formatCompetition c baseUrl) competitions"
       "[] \<notin> set batches"
       "buildTelegramMessages competitions baseUrl
          = map (specMessage (length competitions) batches) [0..<length batches]"
    by blast
  have "batches \<noteq> []" using b(1) assms by auto
  then show ?thesis using b by blast
qed

lemma buildTelegramMessages_single:
  "buildTelegramMessages [c] baseUrl = [buildHeader 1 None None @ formatCompetition c baseUrl]"
  by (simp add: buildTelegramMessages_def batchStep_def Let_def)

lemma length_escapeMarkdown: "length s \<le> length (escapeMarkdown s)"
  unfolding escapeMarkdown_def by (induction s) auto

lemma length_formatCompetition:
  "length (title c) < length (formatCompetition c baseUrl)"
  using length_escapeMarkdown [of "title c"]
  by (simp add: formatCompetition_def Let_def)


lemma two_records_split:
  assumes "TELEGRAM_MAX_LENGTH < length (buildHeader 2 (Some 1) (Some 2))
             + length (formatCompetition a baseUrl) + 2 + length (formatCompetition b baseUrl)"
  shows "buildTelegramMessages [a, b] baseUrl
           = [specHeader 2 (Some (1, 1)) @ formatCompetition a baseUrl,
              specHeader 2 (Some (2, 2)) @ formatCompetition b baseUrl]"
proof -
  have "buildTelegramMessages [a, b] baseUrl
           = [buildHeader (int 2) (Some (int 1)) (Some (int 1)) @ formatCompetition a baseUrl,
              buildHeader (int 2) (Some (int 2)) (Some (int 2)) @ formatCompetition b baseUrl]"
    using assms
    by (simp add: buildTelegramMessages_def batchStep_def Let_def separator_def)
  then show ?thesis by (simp only: buildHeader_range)
qed

lemma two_records_one:
  assumes "length (buildHeader 2 (Some 1) (Some 2))
             + length (formatCompetition a baseUrl) + 2 + length (formatCompetition b baseUrl)
           \<le> TELEGRAM_MAX_LENGTH"
  shows "buildTelegramMessages [a, b] baseUrl
           = [specHeader 2 None @ formatCompetition a baseUrl @ [0x0A, 0x0A]
                @ formatCompetition b baseUrl]"
proof -
  have "buildTelegramMessages [a, b] baseUrl
           = [buildHeader (int 2) None None @ formatCompetition a baseUrl @ [0x0A, 0x0A]
                @ formatCompetition b baseUrl]"
    using assms
    by (simp add: buildTelegramMessages_def batchStep_def Let_def separator_def NEWLINE_def)
  then show ?thesis by (simp only: buildHeader_plain)
qed

lemma two_batches_of_two:
  assumes "length batches = 2" and "[] \<notin> set batches" and "concat batches = [x, y]"
  shows "batches = [[x], [y]]"
proof -
  from assms(1) obtain u v where bs: "batches = [u, v]"
    by (cases batches; cases "tl batches") auto
  from assms(2) bs have "u \<noteq> []" and "v \<noteq> []" by auto
  moreover from assms(3) bs have "u @ v = [x, y]" by simp
  ultimately have "u = [x] \<and> v = [y]"
    by (cases u; cases "tl u") (auto simp: Cons_eq_append_conv)
  then show ?thesis using bs by simp
qed

lemma one_batch:
  assumes "length batches = 1" and "concat batches = xs"
  shows "batches = [xs]"
  using assms by (cases batches) auto

theorem buildTelegramMessages_covers_witness:
  "[\<lparr> id_field = str ''A'', title = replicate 3000 0x61, description = [], prize = [],
      timeLeft = [], source = [], participants = Fin 0, tags = [] \<rparr>,
    \<lparr> id_field = str ''B'', title = replicate 3000 0x62, description = [], prize = [],
      timeLeft = [], source = [], participants = Fin 0, tags = [] \<rparr>] \<noteq> []
   \<and> buildTelegramMessages
         [\<lparr> id_field = str ''A'', title = replicate 3000 0x61, description = [], prize = [],
            timeLeft = [], source = [], participants = Fin 0, tags = [] \<rparr>,
          \<lparr> id_field = str ''B'', title = replicate 3000 0x62, description = [], prize = [],
            timeLeft = [], source = [], participants = Fin 0, tags = [] \<rparr>]
         (str ''http://x/'')
       = [[0x53D1, 0x73B0, 0x20, 0x32, 0x20, 0x4E2A, 0x65B0, 0x7ADE, 0x8D5B, 0xFF08, 0x31, 0x5C,
           0x2D, 0x31, 0x2F, 0x32, 0xFF09, 0xFF1A, 0x0A, 0x0A]
          @ formatCompetition
              \<lparr> id_field = str ''A'', title = replicate 3000 0x61, description = [], prize = [],
                timeLeft = [], source = [], participants = Fin 0, tags = [] \<rparr>
              (str ''http://x/''),
          [0x53D1, 0x73B0, 0x20, 0x32, 0x20, 0x4E2A, 0x65B0, 0x7ADE, 0x8D5B, 0xFF08, 0x32, 0x5C,
           0x2D, 0x32, 0x2F, 0x32, 0xFF09, 0xFF1A, 0x0A, 0x0A]
          @ formatCompetition
              \<lparr> id_field = str ''B'', title = replicate 3000 0x62, description = [], prize = [],
                timeLeft = [], source = [], participants = Fin 0, tags = [] \<rparr>
              (str ''http://x/'')]"
proof -
  let ?a = "\<lparr> id_field = str ''A'', title = replicate 3000 0x61, description = [], prize = [],
              timeLeft = [], source = [], participants = Fin 0, tags = [] \<rparr>"
  let ?b = "\<lparr> id_field = str ''B'', title = replicate 3000 0x62, description = [], prize = [],
              timeLeft = [], source = [], participants = Fin 0, tags = [] \<rparr>"
  let ?u = "str ''http://x/''"
  have ne: "[?a, ?b] \<noteq> []" by simp
  have la: "3000 < length (formatCompetition ?a ?u)"
    using length_formatCompetition [of ?a ?u] by simp
  have lb: "3000 < length (formatCompetition ?b ?u)"
    using length_formatCompetition [of ?b ?u] by simp
  have "TELEGRAM_MAX_LENGTH < length (buildHeader 2 (Some 1) (Some 2))
          + length (formatCompetition ?a ?u) + 2 + length (formatCompetition ?b ?u)"
    using la lb by (simp add: TELEGRAM_MAX_LENGTH_def)
  from two_records_split [OF this]
  have "length (buildTelegramMessages [?a, ?b] ?u) = 2" by simp
  moreover from buildTelegramMessages_covers [OF ne, of ?u]
  obtain batches where
    cat: "concat batches = map (\<lambda>c. formatCompetition c ?u) [?a, ?b]"
    and nonempty: "[] \<notin> set batches"
    and msgs: "buildTelegramMessages [?a, ?b] ?u
                 = map (specMessage (length [?a, ?b]) batches) [0..<length batches]"
    by blast
  ultimately have "length batches = 2" by simp
  from two_batches_of_two [OF this nonempty] cat
  have bs: "batches = [[formatCompetition ?a ?u], [formatCompetition ?b ?u]]" by simp
  let ?B = "[[formatCompetition ?a ?u], [formatCompetition ?b ?u]]"
  have n2: "length [?a, ?b] = 2" by simp
  have up: "[0..<length ?B] = [0, 1]" by (simp add: upt_rec)
  have "buildTelegramMessages [?a, ?b] ?u = map (specMessage 2 ?B) [0..<length ?B]"
    using msgs unfolding bs n2 .
  also have "\<dots> = [specMessage 2 ?B 0, specMessage 2 ?B 1]"
    unfolding up by simp
  also have "specMessage 2 ?B 0
               = [0x53D1, 0x73B0, 0x20, 0x32, 0x20, 0x4E2A, 0x65B0, 0x7ADE, 0x8D5B, 0xFF08, 0x31,
                  0x5C, 0x2D, 0x31, 0x2F, 0x32, 0xFF09, 0xFF1A, 0x0A, 0x0A]
                 @ formatCompetition ?a ?u"
    by (simp add: specMessage_def specHeader_def firstPosition_def lastPosition_def
          blankLineJoined_def decimal_def decimalAcc.simps)
  also have "specMessage 2 ?B 1
               = [0x53D1, 0x73B0, 0x20, 0x32, 0x20, 0x4E2A, 0x65B0, 0x7ADE, 0x8D5B, 0xFF08, 0x32,
                  0x5C, 0x2D, 0x32, 0x2F, 0x32, 0xFF09, 0xFF1A, 0x0A, 0x0A]
                 @ formatCompetition ?b ?u"
    by (simp add: specMessage_def specHeader_def firstPosition_def lastPosition_def
          blankLineJoined_def decimal_def decimalAcc.simps)
  finally show ?thesis using ne by simp
qed

text \<open>
  Claim C2, as amended. For every list of records, a message that holds two or more
  blocks is within \<open>TELEGRAM_MAX_LENGTH\<close>, header included. A block is never split
  or dropped: a message is longer than the maximum only when its batch is a single block,
  and the message then is the header of that block's position followed by the block.
\<close>

theorem over_budget_only_single_block:
  "\<exists>batches.
     concat batches = map (\<lambda>c. formatCompetition c baseUrl) competitions
     \<and> [] \<notin> set batches
     \<and> buildTelegramMessages competitions baseUrl
         = map (specMessage (length competitions) batches) [0..<length batches]
     \<and> (\<forall>k < length batches. 2 \<le> length (batches ! k) \<longrightarrow>
           length (specMessage (length competitions) batches k) \<le> TELEGRAM_MAX_LENGTH)
     \<and> (\<forall>k < length batches.
           TELEGRAM_MAX_LENGTH < length (specMessage (length competitions) batches k) \<longrightarrow>
           (\<exists>b. batches ! k = [b]
                \<and> specMessage (length competitions) batches k
                    = specHeader (length competitions)
                        (if length batches = 1 then None
                         else Some (firstPosition batches k, firstPosition batches k))
                      @ b))"
proof -
  let ?n = "length competitions"
  from buildTelegramMessages_batches [of baseUrl competitions]
  obtain batches where
    cat: "concat batches = map (\<lambda>c. formatCompetition c baseUrl) competitions"
    and ne: "[] \<notin> set batches"
    and msgs: "buildTelegramMessages competitions baseUrl
                 = map (specMessage ?n batches) [0..<length batches]"
    and fit: "\<forall>k < length batches. 2 \<le> length (batches ! k) \<longrightarrow>
                length (specMessage ?n batches k) \<le> TELEGRAM_MAX_LENGTH"
    by blast
  have single: "\<forall>k < length batches.
           TELEGRAM_MAX_LENGTH < length (specMessage ?n batches k) \<longrightarrow>
           (\<exists>b. batches ! k = [b]
                \<and> specMessage ?n batches k
                    = specHeader ?n
                        (if length batches = 1 then None
                         else Some (firstPosition batches k, firstPosition batches k))
                      @ b)"
  proof (intro allI impI)
    fix k assume k: "k < length batches"
      and over: "TELEGRAM_MAX_LENGTH < length (specMessage ?n batches k)"
    have "\<not> 2 \<le> length (batches ! k)" using fit k over by fastforce
    moreover have "batches ! k \<noteq> []" using ne k by (metis nth_mem)
    then have "0 < length (batches ! k)" by simp
    ultimately have "length (batches ! k) = 1" by linarith
    then obtain b where b: "batches ! k = [b]"
      by (cases "batches ! k") auto
    have "lastPosition batches k = firstPosition batches k"
      using k b by (simp add: lastPosition_def firstPosition_def take_Suc_conv_app_nth)
    then have "specMessage ?n batches k
                 = specHeader ?n
                     (if length batches = 1 then None
                      else Some (firstPosition batches k, firstPosition batches k))
                   @ b"
      using b by (simp add: specMessage_def blankLineJoined_def)
    then show "\<exists>b. batches ! k = [b]
                \<and> specMessage ?n batches k
                    = specHeader ?n
                        (if length batches = 1 then None
                         else Some (firstPosition batches k, firstPosition batches k))
                      @ b"
      using b by blast
  qed
  show ?thesis using cat ne msgs fit single by blast
qed

theorem over_budget_only_single_block_witness:
  "buildTelegramMessages
     [\<lparr> id_field = str ''A'', title = str ''first'', description = [], prize = [],
        timeLeft = [], source = [], participants = Fin 0, tags = [] \<rparr>,
      \<lparr> id_field = str ''B'', title = str ''second'', description = [], prize = [],
        timeLeft = [], source = [], participants = Fin 0, tags = [] \<rparr>]
     (str ''http://x/'')
     = [specHeader 2 None
        @ formatCompetition
            \<lparr> id_field = str ''A'', title = str ''first'', description = [], prize = [],
              timeLeft = [], source = [], participants = Fin 0, tags = [] \<rparr> (str ''http://x/'')
        @ [0x0A, 0x0A]
        @ formatCompetition
            \<lparr> id_field = str ''B'', title = str ''second'', description = [], prize = [],
              timeLeft = [], source = [], participants = Fin 0, tags = [] \<rparr> (str ''http://x/'')]
   \<and> 2 \<le> length
         [formatCompetition
            \<lparr> id_field = str ''A'', title = str ''first'', description = [], prize = [],
              timeLeft = [], source = [], participants = Fin 0, tags = [] \<rparr> (str ''http://x/''),
          formatCompetition
            \<lparr> id_field = str ''B'', title = str ''second'', description = [], prize = [],
              timeLeft = [], source = [], participants = Fin 0, tags = [] \<rparr> (str ''http://x/'')]
   \<and> length
         (specHeader 2 None
          @ formatCompetition
              \<lparr> id_field = str ''A'', title = str ''first'', description = [], prize = [],
                timeLeft = [], source = [], participants = Fin 0, tags = [] \<rparr> (str ''http://x/'')
          @ [0x0A, 0x0A]
          @ formatCompetition
              \<lparr> id_field = str ''B'', title = str ''second'', description = [], prize = [],
                timeLeft = [], source = [], participants = Fin 0, tags = [] \<rparr> (str ''http://x/''))
       \<le> TELEGRAM_MAX_LENGTH
   \<and> buildTelegramMessages
         [\<lparr> id_field = str ''A'', title = replicate 4096 0x61, description = [], prize = [],
            timeLeft = [], source = [], participants = Fin 0, tags = [] \<rparr>]
         (str ''http://x/'')
       = [specHeader 1 None
          @ formatCompetition
              \<lparr> id_field = str ''A'', title = replicate 4096 0x61, description = [], prize = [],
                timeLeft = [], source = [], participants = Fin 0, tags = [] \<rparr>
              (str ''http://x/'')]
   \<and> TELEGRAM_MAX_LENGTH
       < length
           (specHeader 1 None
            @ formatCompetition
                \<lparr> id_field = str ''A'', title = replicate 4096 0x61, description = [],
                  prize = [], timeLeft = [], source = [], participants = Fin 0, tags = [] \<rparr>
                (str ''http://x/''))"
proof -
  let ?a = "\<lparr> id_field = str ''A'', title = str ''first'', description = [], prize = [],
              timeLeft = [], source = [], participants = Fin 0, tags = [] \<rparr>"
  let ?b = "\<lparr> id_field = str ''B'', title = str ''second'', description = [], prize = [],
              timeLeft = [], source = [], participants = Fin 0, tags = [] \<rparr>"
  let ?big = "\<lparr> id_field = str ''A'', title = replicate 4096 0x61, description = [], prize = [],
                timeLeft = [], source = [], participants = Fin 0, tags = [] \<rparr>"
  let ?u = "str ''http://x/''"
  let ?fa = "formatCompetition ?a ?u"
  let ?fb = "formatCompetition ?b ?u"
  have la: "length ?fa \<le> 200"
    by (simp add: formatCompetition_def escapeMarkdown_def markdownReserved_def str_def
          UNKNOWN_def BACKSLASH_def)
  have lb: "length ?fb \<le> 200"
    by (simp add: formatCompetition_def escapeMarkdown_def markdownReserved_def str_def
          UNKNOWN_def BACKSLASH_def)
  have lh: "length (buildHeader 2 (Some 1) (Some 2)) \<le> 100"
    by (simp add: buildHeader_def intToString_def digitsOf.simps str_def)
  have "length (buildHeader 2 (Some 1) (Some 2)) + length ?fa + 2 + length ?fb
          \<le> TELEGRAM_MAX_LENGTH"
    using la lb lh by (simp add: TELEGRAM_MAX_LENGTH_def)
  from two_records_one [OF this]
  have m: "buildTelegramMessages [?a, ?b] ?u = [specHeader 2 None @ ?fa @ [0x0A, 0x0A] @ ?fb]" .
  from over_budget_only_single_block [of ?u "[?a, ?b]"]
  obtain batches where
    cat: "concat batches = map (\<lambda>c. formatCompetition c ?u) [?a, ?b]"
    and msgs: "buildTelegramMessages [?a, ?b] ?u
                 = map (specMessage (length [?a, ?b]) batches) [0..<length batches]"
    and fit: "\<forall>k < length batches. 2 \<le> length (batches ! k) \<longrightarrow>
                length (specMessage (length [?a, ?b]) batches k) \<le> TELEGRAM_MAX_LENGTH"
    by blast
  have "length (buildTelegramMessages [?a, ?b] ?u) = 1" using m by simp
  moreover have "length (buildTelegramMessages [?a, ?b] ?u) = length batches"
    unfolding msgs by simp
  ultimately have "length batches = 1" by simp
  from one_batch [OF this cat] have bs: "batches = [[?fa, ?fb]]" by simp
  have n2: "length [?a, ?b] = 2" by simp
  have "length (specMessage 2 [[?fa, ?fb]] 0) \<le> TELEGRAM_MAX_LENGTH"
    using fit unfolding bs n2 by simp
  moreover have "specMessage 2 [[?fa, ?fb]] 0 = specHeader 2 None @ ?fa @ [0x0A, 0x0A] @ ?fb"
    by (simp add: specMessage_def blankLineJoined_def)
  ultimately have fit2: "length (specHeader 2 None @ ?fa @ [0x0A, 0x0A] @ ?fb)
                           \<le> TELEGRAM_MAX_LENGTH"
    by simp
  have big: "buildTelegramMessages [?big] ?u = [specHeader 1 None @ formatCompetition ?big ?u]"
    using buildHeader_plain [of 1] by (simp add: buildTelegramMessages_single)
  have over: "TELEGRAM_MAX_LENGTH < length (specHeader 1 None @ formatCompetition ?big ?u)"
    using length_formatCompetition [of ?big ?u] by (simp add: TELEGRAM_MAX_LENGTH_def)
  show ?thesis
    using m fit2 big over by simp
qed

text \<open>
  Claim C2 as stated fails: a record whose title has 4096 characters gives one message,
  longer than \<open>TELEGRAM_MAX_LENGTH\<close>.
\<close>

theorem single_block_over_budget:
  "length (buildTelegramMessages
       [\<lparr> id_field = str ''A'', title = replicate 4096 0x61, description = [], prize = [],
          timeLeft = [], source = [], participants = Fin 0, tags = [] \<rparr>]
       (str ''https://www.competehub.dev/competitions/'')) = 1
   \<and> TELEGRAM_MAX_LENGTH <
       length (hd (buildTelegramMessages
         [\<lparr> id_field = str ''A'', title = replicate 4096 0x61, description = [], prize = [],
            timeLeft = [], source = [], participants = Fin 0, tags = [] \<rparr>]
         (str ''https://www.competehub.dev/competitions/'')))"
  using length_formatCompetition
    [of "\<lparr> id_field = str ''A'', title = replicate 4096 0x61, description = [], prize = [],
          timeLeft = [], source = [], participants = Fin 0, tags = [] \<rparr>"
        "str ''https://www.competehub.dev/competitions/''"]
  by (simp add: buildTelegramMessages_single TELEGRAM_MAX_LENGTH_def)

section \<open>Properties of the marker scan\<close>

lemma indexFrom_Some:
  "indexFrom pat cs k = Some j \<Longrightarrow> k \<le> j \<and> j + length pat \<le> k + length cs"
proof (induction cs arbitrary: k)
  case Nil
  then show ?case by (simp split: if_splits)
next
  case (Cons c cs)
  show ?case
  proof (cases "take (length pat) (c # cs) = pat")
    case True
    then have "length (take (length pat) (c # cs)) = length pat" by simp
    then have "length pat \<le> length (c # cs)" by simp
    then show ?thesis using Cons.prems True by simp
  next
    case False
    then have "indexFrom pat cs (Suc k) = Some j" using Cons.prems by simp
    from Cons.IH [OF this] show ?thesis by simp
  qed
qed

lemma indexOf_Some:
  assumes "indexOf s pat from = Some j"
  shows "min from (length s) \<le> j \<and> j + length pat \<le> length s"
  using indexFrom_Some [OF assms [unfolded indexOf_def]] by auto

lemma indexOf_Some_ne:
  assumes "indexOf s pat from = Some j" and "pat \<noteq> []"
  shows "from \<le> j \<and> j < length s"
proof -
  from indexOf_Some [OF assms(1)] have a: "min from (length s) \<le> j" and b: "j + length pat \<le> length s"
    by simp_all
  have "0 < length pat" using assms(2) by simp
  then have "j < length s" using b by linarith
  then show ?thesis using a by (simp add: min_def split: if_splits)
qed

lemma blockEnd_Some:
  "blockEnd prev cs i depth inString = Some e \<Longrightarrow> i \<le> e \<and> e < i + length cs"
proof (induction cs arbitrary: prev i depth inString)
  case Nil
  then show ?case by simp
next
  case (Cons ch rest)
  show ?case
  proof (cases "blockStep prev ch depth inString")
    case None
    then show ?thesis using Cons.prems by simp
  next
    case (Some st)
    then have "blockEnd (Some ch) rest (Suc i) (fst st) (snd st) = Some e"
      using Cons.prems by (cases st) simp
    from Cons.IH [OF this] show ?thesis by simp
  qed
qed

lemma extractJsonBlock_Some:
  assumes "extractJsonBlock src startIndex = Some raw"
  shows "raw \<noteq> [] \<and> startIndex + length raw \<le> length src"
proof -
  from assms obtain e where
    e: "blockEnd (charBefore src startIndex) (drop startIndex src) startIndex 0 False = Some e"
    and raw: "raw = slice src startIndex (e + 1)"
    by (auto simp: extractJsonBlock_def split: option.splits)
  from blockEnd_Some [OF e] have "startIndex \<le> e" and "e < startIndex + (length src - startIndex)"
    by simp_all
  then have "startIndex \<le> e" and "e < length src" by linarith+
  then have "length raw = e + 1 - startIndex" and "e + 1 \<le> length src"
    unfolding raw slice_def by simp_all
  then show ?thesis using \<open>startIndex \<le> e\<close> by auto
qed

lemma marker_ne: "marker \<noteq> []"
  by (simp add: marker_def)

lemma scanIteration_Some:
  assumes "scanIteration P chunk searchIndex competitions = Some (searchIndex', competitions')"
  shows "\<exists>markerIndex objectStart.
           indexOf chunk marker searchIndex = Some markerIndex
           \<and> indexOf chunk [LBRACE] markerIndex = Some objectStart
           \<and> (case extractJsonBlock chunk objectStart of
                 None \<Rightarrow> searchIndex' = objectStart + 1
               | Some raw \<Rightarrow> raw \<noteq> [] \<and> searchIndex' = objectStart + length raw)
           \<and> searchIndex < searchIndex' \<and> searchIndex' \<le> length chunk"
proof -
  from assms obtain m where m: "indexOf chunk marker searchIndex = Some m"
    by (auto simp: scanIteration_def split: option.splits)
  from assms m obtain os where os: "indexOf chunk [LBRACE] m = Some os"
    by (auto simp: scanIteration_def split: option.splits)
  from indexOf_Some_ne [OF m marker_ne] have sm: "searchIndex \<le> m" by simp
  from indexOf_Some_ne [OF os] have mo: "m \<le> os" and ol: "os < length chunk" by simp_all
  show ?thesis
  proof (cases "extractJsonBlock chunk os")
    case None
    then have "searchIndex' = os + 1" using assms m os by (simp add: scanIteration_def)
    then show ?thesis using m os None sm mo ol by simp
  next
    case (Some raw)
    from extractJsonBlock_Some [OF Some] have ne: "raw \<noteq> []" and le: "os + length raw \<le> length chunk"
      by simp_all
    have "searchIndex' = os + length raw"
      using assms m os Some ne
      by (auto simp: scanIteration_def split: sum.splits option.splits)
    moreover have "0 < length raw" using ne by simp
    ultimately have "searchIndex < searchIndex'" and "searchIndex' \<le> length chunk"
      using sm mo le by linarith+
    then show ?thesis using m os Some ne \<open>searchIndex' = os + length raw\<close> by simp
  qed
qed

lemma scanIteration_bounds:
  assumes "scanIteration P chunk searchIndex competitions = Some nxt"
  shows "searchIndex < fst nxt \<and> fst nxt \<le> length chunk"
  using scanIteration_Some [of P chunk searchIndex competitions "fst nxt" "snd nxt"] assms
  by auto

lemma scanLoop_returns:
  "\<exists>r. scanLoop P chunk searchIndex competitions = Some r"
proof (induction "length chunk - searchIndex" arbitrary: searchIndex competitions rule: less_induct)
  case less
  show ?case
  proof (cases "scanIteration P chunk searchIndex competitions")
    case None
    then show ?thesis by (subst scanLoop.simps) simp
  next
    case (Some nxt)
    from scanIteration_bounds [OF Some]
    have "length chunk - fst nxt < length chunk - searchIndex" by linarith
    from less [OF this, of "snd nxt"]
    obtain r where "scanLoop P chunk (fst nxt) (snd nxt) = Some r" by blast
    then show ?thesis using Some by (subst scanLoop.simps) simp
  qed
qed

text \<open>
  Claim C9. An iteration that does not leave the loop has found a marker and an opening
  brace; it moves the cursor to \<open>objectStart + 1\<close> when no block is extracted and to
  \<open>objectStart + raw.length\<close>, with \<open>raw\<close> not empty, otherwise; the new cursor is
  greater than the old one and at most the length of the chunk. Hence the loop returns
  for every chunk, from every cursor.
\<close>

theorem scanLoop_terminates:
  "(\<forall>searchIndex' competitions'.
      scanIteration P chunk searchIndex competitions = Some (searchIndex', competitions') \<longrightarrow>
      (\<exists>markerIndex objectStart.
         indexOf chunk marker searchIndex = Some markerIndex
         \<and> indexOf chunk [LBRACE] markerIndex = Some objectStart
         \<and> (case extractJsonBlock chunk objectStart of
               None \<Rightarrow> searchIndex' = objectStart + 1
             | Some raw \<Rightarrow> raw \<noteq> [] \<and> searchIndex' = objectStart + length raw)
         \<and> searchIndex < searchIndex' \<and> searchIndex' \<le> length chunk))
   \<and> (\<exists>r. scanLoop P chunk searchIndex competitions = Some r)"
  using scanIteration_Some [of P chunk searchIndex competitions]
    scanLoop_returns [of P chunk searchIndex competitions]
  by blast

theorem scanLoop_terminates_witness:
  "scanIteration examplePlatform unbalancedChunk 0 [] = Some (17, [])
   \<and> 0 < (17 :: nat) \<and> 17 \<le> length unbalancedChunk
   \<and> (\<exists>r. scanLoop examplePlatform unbalancedChunk 0 [] = Some r)"
proof -
  have it: "scanIteration examplePlatform unbalancedChunk 0 [] = Some (17, [])"
    by code_simp
  from scanLoop_terminates [of examplePlatform unbalancedChunk 0 "[]"] it
  have "0 < (17 :: nat) \<and> 17 \<le> length unbalancedChunk" by blast
  moreover from scanLoop_terminates [of examplePlatform unbalancedChunk 0 "[]"]
  have "\<exists>r. scanLoop examplePlatform unbalancedChunk 0 [] = Some r" by blast
  ultimately show ?thesis using it by blast
qed

text \<open>
  Claim C4. When the scan for the block of a marker occurrence runs off the end of the
  chunk, the iteration only moves the cursor to the position after the opening brace, with
  the records collected so far unchanged, and the loop goes on from there: the result is
  the result of the scan from that cursor, which returns.
\<close>

theorem failed_block_is_skipped:
  assumes "indexOf chunk marker searchIndex = Some markerIndex"
    and "indexOf chunk [LBRACE] markerIndex = Some objectStart"
    and "extractJsonBlock chunk objectStart = None"
  shows "scanIteration P chunk searchIndex competitions = Some (objectStart + 1, competitions)
         \<and> scanLoop P chunk searchIndex competitions
             = scanLoop P chunk (objectStart + 1) competitions
         \<and> (\<exists>r. scanLoop P chunk (objectStart + 1) competitions = Some r)"
proof -
  have it: "scanIteration P chunk searchIndex competitions = Some (objectStart + 1, competitions)"
    using assms by (simp add: scanIteration_def)
  have "scanLoop P chunk searchIndex competitions
          = scanLoop P chunk (objectStart + 1) competitions"
    by (subst scanLoop.simps) (simp add: it)
  then show ?thesis using it scanLoop_returns by blast
qed

theorem failed_block_is_skipped_witness:
  "indexOf unbalancedChunk marker 0 = Some 0
   \<and> indexOf unbalancedChunk [LBRACE] 0 = Some 16
   \<and> extractJsonBlock unbalancedChunk 16 = None
   \<and> scanIteration examplePlatform unbalancedChunk 0 [] = Some (16 + 1, [])
   \<and> scanLoop examplePlatform unbalancedChunk 0 []
       = scanLoop examplePlatform unbalancedChunk (16 + 1) []
   \<and> scanLoop examplePlatform unbalancedChunk 0 []
       = Some [\<lparr> id_field = str ''a'', title = str ''t'', description = [], prize = [],
                 timeLeft = [], source = [], participants = Fin 0, tags = [] \<rparr>]"
proof -
  have h1: "indexOf unbalancedChunk marker 0 = Some 0" by code_simp
  have h2: "indexOf unbalancedChunk [LBRACE] 0 = Some 16" by code_simp
  have h3: "extractJsonBlock unbalancedChunk 16 = None" by code_simp
  have r: "scanLoop examplePlatform unbalancedChunk (16 + 1) []
             = Some [\<lparr> id_field = str ''a'', title = str ''t'', description = [], prize = [],
                       timeLeft = [], source = [], participants = Fin 0, tags = [] \<rparr>]"
    by code_simp
  from failed_block_is_skipped [OF h1 h2 h3, of examplePlatform "[]"] h1 h2 h3 r
  show ?thesis by simp
qed

section \<open>Properties of the tolerant decoder\<close>

text \<open>
  On bytes below 0x80 the decoder is the identity: for a block whose unescaped text is
  ASCII, the fallback parses the text that has just failed to parse, and fails again.
\<close>

lemma utf8Scalars_ascii:
  "\<forall>b \<in> set bs. b \<le> 0x7F \<Longrightarrow> utf8Scalars bs 0 0 0 0x80 0xBF = map unat bs"
  by (induction bs) auto

lemma stripBOM_ascii:
  "\<forall>b \<in> set bs. b \<le> 0x7F \<Longrightarrow> stripBOM bs = bs"
proof (cases bs)
  case Nil
  then show ?thesis by (simp add: stripBOM_def)
next
  case (Cons b rest)
  assume "\<forall>b \<in> set bs. b \<le> 0x7F"
  then have "b \<le> 0x7F" using Cons by simp
  then have "b \<noteq> 0xEF" by auto
  then show ?thesis using Cons by (auto simp: stripBOM_def take_Suc_conv_app_nth split: list.splits nat.splits)
qed

lemma ascii_byte:
  fixes c :: jschar
  assumes "c < 0x80"
  shows "(ucast c :: 8 word) \<le> 0x7F" and "utf16 (unat (ucast c :: 8 word)) = [c]"
proof -
  have u: "unat c < 128" using assms by (simp add: word_less_nat_alt)
  have uc: "unat (ucast c :: 8 word) = unat c"
    using u by (simp add: unsigned_ucast_eq take_bit_nat_eq_self)
  show "(ucast c :: 8 word) \<le> 0x7F"
    using u uc by (simp add: word_le_nat_alt)
  show "utf16 (unat (ucast c :: 8 word)) = [c]"
    using u uc by (simp add: utf16_def)
qed

lemma fallbackText_ascii:
  assumes "\<forall>c \<in> set s. c < 0x80"
  shows "utf8Decode (toBytes s) = s"
proof -
  have b: "\<forall>b \<in> set (toBytes s). b \<le> 0x7F"
    using assms ascii_byte(1) by (auto simp: toBytes_def)
  have "concat (map utf16 (map unat (toBytes s))) = s"
    using assms
  proof (induction s)
    case Nil
    then show ?case by (simp add: toBytes_def)
  next
    case (Cons c s)
    then show ?case using ascii_byte(2) [of c] by (simp add: toBytes_def)
  qed
  then show ?thesis
    using b by (simp add: utf8Decode_def stripBOM_ascii utf8Scalars_ascii)
qed

lemma fallback_ascii_fails_again:
  assumes "\<forall>c \<in> set (unescapeQuotes (sanitizeJsonString raw)). c < 0x80"
    and "JSON_parse P (unescapeQuotes (sanitizeJsonString raw)) = None"
  shows "parseCompetitionJson P raw = Inl SyntaxError"
  using assms by (simp add: parseCompetitionJson_def fallbackText_def fallbackText_ascii)

lemma lowByteBlock_normalized:
  "unescapeQuotes (sanitizeJsonString [0x7B, 0x5C, 0x122, 0x61, 0x5C, 0x22, 0x3A, 0x31, 0x7D])
     = [0x7B, 0x5C, 0x122, 0x61, 0x22, 0x3A, 0x31, 0x7D]"
  by (simp add: sanitizeJsonString_def sanitizeChar_def BACKSLASH_def QUOTE_def)

lemma lowByteBlock_fallback:
  "utf8Decode (toBytes [0x7B, 0x5C, 0x122, 0x61, 0x22, 0x3A, 0x31, 0x7D])
     = [0x7B, 0x5C, 0x22, 0x61, 0x22, 0x3A, 0x31, 0x7D]"
  by (simp add: toBytes_def utf8Decode_def stripBOM_def utf16_def)

lemma lowByteBlock_spec_text:
  "unescapeQuotes (utf8Decode (toBytes
       (sanitizeJsonString [0x7B, 0x5C, 0x122, 0x61, 0x5C, 0x22, 0x3A, 0x31, 0x7D])))
     = [0x7B, 0x22, 0x61, 0x22, 0x3A, 0x31, 0x7D]"
  by (simp add: sanitizeJsonString_def sanitizeChar_def BACKSLASH_def QUOTE_def toBytes_def
        utf8Decode_def stripBOM_def utf16_def)

text \<open>
  Claim C5, as amended. The quotes are unescaped once, before the first attempt. When that
  attempt fails, the fallback reads the low bytes of the unescaped string, decodes them as
  UTF-8 and parses the decoded text as it is; when it succeeds, its value is returned.
\<close>

theorem parseCompetitionJson_fallback:
  "(JSON_parse P (unescapeQuotes (sanitizeJsonString raw)) = Some v \<longrightarrow>
      parseCompetitionJson P raw = Inr v)
   \<and> (JSON_parse P (unescapeQuotes (sanitizeJsonString raw)) = None \<longrightarrow>
        parseCompetitionJson P raw
          = (case JSON_parse P (utf8Decode (toBytes (unescapeQuotes (sanitizeJsonString raw)))) of
               Some w \<Rightarrow> Inr w
             | None \<Rightarrow> Inl SyntaxError))"
  by (simp add: parseCompetitionJson_def fallbackText_def Let_def)

theorem parseCompetitionJson_fallback_witness:
  "JSON_parse
     \<lparr> JSON_parse = (\<lambda>s. if s = [0x7B, 0x22, 0x61, 0x22, 0x3A, 0x31, 0x7D]
                          then Some (JObj [(str ''a'', JNum (Fin 1))]) else None),
       Number_toString = (\<lambda>n. []) \<rparr>
     (unescapeQuotes (sanitizeJsonString [0x7B, 0x5C, 0x122, 0x61, 0x5C, 0x22, 0x3A, 0x31, 0x7D]))
     = None
   \<and> parseCompetitionJson
         \<lparr> JSON_parse = (\<lambda>s. if s = [0x7B, 0x22, 0x61, 0x22, 0x3A, 0x31, 0x7D]
                              then Some (JObj [(str ''a'', JNum (Fin 1))]) else None),
           Number_toString = (\<lambda>n. []) \<rparr>
         [0x7B, 0x5C, 0x122, 0x61, 0x5C, 0x22, 0x3A, 0x31, 0x7D]
       = Inl SyntaxError"
  using parseCompetitionJson_fallback
    [of "\<lparr> JSON_parse = (\<lambda>s. if s = [0x7B, 0x22, 0x61, 0x22, 0x3A, 0x31, 0x7D]
                              then Some (JObj [(str ''a'', JNum (Fin 1))]) else None),
           Number_toString = (\<lambda>n. []) \<rparr>"
        "[0x7B, 0x5C, 0x122, 0x61, 0x5C, 0x22, 0x3A, 0x31, 0x7D]"]
  by (simp add: lowByteBlock_normalized lowByteBlock_fallback)

text \<open>
  Claim C5 as stated fails. The block of an opening brace, a backslash, U+0122, \<open>a\<close>,
  a backslash, a quote, \<open>:1\<close> and a closing brace is one that \<open>extractJsonBlock\<close>
  returns. Its first parse fails. The code then parses the text of an opening brace, a
  backslash, a quote, \<open>a\<close>, a quote, \<open>:1\<close> and a closing brace, which is no JSON
  text, and throws; in the order of the claim the text parsed would be the object with the
  key \<open>a\<close>.
\<close>

theorem fallback_order_differs:
  "extractJsonBlock [0x7B, 0x5C, 0x122, 0x61, 0x5C, 0x22, 0x3A, 0x31, 0x7D] 0
     = Some [0x7B, 0x5C, 0x122, 0x61, 0x5C, 0x22, 0x3A, 0x31, 0x7D]
   \<and> parseCompetitionJson
         \<lparr> JSON_parse = (\<lambda>s. if s = [0x7B, 0x22, 0x61, 0x22, 0x3A, 0x31, 0x7D]
                              then Some (JObj [(str ''a'', JNum (Fin 1))]) else None),
           Number_toString = (\<lambda>n. []) \<rparr>
         [0x7B, 0x5C, 0x122, 0x61, 0x5C, 0x22, 0x3A, 0x31, 0x7D]
       = Inl SyntaxError
   \<and> specParseCompetitionJson
         \<lparr> JSON_parse = (\<lambda>s. if s = [0x7B, 0x22, 0x61, 0x22, 0x3A, 0x31, 0x7D]
                              then Some (JObj [(str ''a'', JNum (Fin 1))]) else None),
           Number_toString = (\<lambda>n. []) \<rparr>
         [0x7B, 0x5C, 0x122, 0x61, 0x5C, 0x22, 0x3A, 0x31, 0x7D]
       = Inr (JObj [(str ''a'', JNum (Fin 1))])"
proof (intro conjI)
  show "extractJsonBlock [0x7B, 0x5C, 0x122, 0x61, 0x5C, 0x22, 0x3A, 0x31, 0x7D] 0
          = Some [0x7B, 0x5C, 0x122, 0x61, 0x5C, 0x22, 0x3A, 0x31, 0x7D]"
    by (simp add: extractJsonBlock_def charBefore_def blockStep_def slice_def
          BACKSLASH_def QUOTE_def LBRACE_def RBRACE_def)
  show "parseCompetitionJson
         \<lparr> JSON_parse = (\<lambda>s. if s = [0x7B, 0x22, 0x61, 0x22, 0x3A, 0x31, 0x7D]
                              then Some (JObj [(str ''a'', JNum (Fin 1))]) else None),
           Number_toString = (\<lambda>n. []) \<rparr>
         [0x7B, 0x5C, 0x122, 0x61, 0x5C, 0x22, 0x3A, 0x31, 0x7D]
       = Inl SyntaxError"
    by (simp add: parseCompetitionJson_def fallbackText_def
          lowByteBlock_normalized lowByteBlock_fallback)
  show "specParseCompetitionJson
         \<lparr> JSON_parse = (\<lambda>s. if s = [0x7B, 0x22, 0x61, 0x22, 0x3A, 0x31, 0x7D]
                              then Some (JObj [(str ''a'', JNum (Fin 1))]) else None),
           Number_toString = (\<lambda>n. []) \<rparr>
         [0x7B, 0x5C, 0x122, 0x61, 0x5C, 0x22, 0x3A, 0x31, 0x7D]
       = Inr (JObj [(str ''a'', JNum (Fin 1))])"
    by (simp add: specParseCompetitionJson_def lowByteBlock_normalized lowByteBlock_spec_text)
qed

section \<open>Properties of the record normalizer\<close>

lemma letter_not_special:
  assumes "isAsciiLetter ch"
  shows "\<not> isWhiteSpace ch" and "\<not> isDigit ch" and "ch \<noteq> 0x30" and "ch \<noteq> 0x2B"
    and "ch \<noteq> 0x2D" and "ch \<noteq> 0x2E"
  using assms
  by (auto simp: isAsciiLetter_def isWhiteSpace_def isDigit_def word_le_nat_alt)

lemma trim_Cons:
  assumes "\<not> isWhiteSpace ch"
  shows "\<exists>t. trim (ch # rest) = ch # t"
proof -
  have "dropWhile isWhiteSpace (rev rest @ [ch]) = dropWhile isWhiteSpace (rev rest) @ [ch]"
    using assms by (simp add: dropWhile_append)
  then show ?thesis using assms by (simp add: trim_def)
qed

lemma stringToNumber_letter:
  assumes "isAsciiLetter ch" and "ch \<noteq> 0x49"
  shows "stringToNumber (ch # rest) = NaN"
proof -
  note f = letter_not_special [OF assms(1)]
  from trim_Cons [OF f(1)] obtain t where t: "trim (ch # rest) = ch # t" by blast
  have r: "parseRadixLiteral (ch # t) = None"
    using f(3) by (simp add: parseRadixLiteral_def split: list.splits option.splits)
  have inf: "ch # t \<noteq> str ''Infinity''"
    using assms(2) by (simp add: str_def)
  have u: "parseUnsignedDecimal (ch # t) = None"
    using f(2) f(6) inf by (simp add: parseUnsignedDecimal_def Let_def)
  have d: "parseDecimal (ch # t) = None"
    using f(4) f(5) u by (simp add: parseDecimal_def)
  show ?thesis
    using t r d by (simp add: stringToNumber_def Let_def)
qed

lemma toBinary64_42: "toBinary64 42 = Fin 42"
  by (simp add: toBinary64_def binaryExponent_def roundTiesToEven_def pow2_def bitLength.simps
        Let_def)

lemma trim_42: "trim (str ''42'') = [0x34, 0x32]"
  by (simp add: trim_def str_def isWhiteSpace_def)

lemma parse_42: "parseUnsignedDecimal [0x34, 0x32] = Some (toBinary64 42)"
  by (simp add: parseUnsignedDecimal_def str_def isDigit_def parseExponent_def scale10_def
        radixValue_def digitValue_def Let_def)

lemma stringToNumber_42: "stringToNumber (str ''42'') = Fin 42"
  by (simp add: stringToNumber_def trim_42 parseRadixLiteral_def radixOf_def parseDecimal_def
        parse_42 toBinary64_42)

lemma stringToNumber_object: "stringToNumber (str ''[object Object]'') = NaN"
  by (simp add: stringToNumber_def trim_def str_def isWhiteSpace_def parseRadixLiteral_def
        radixOf_def parseDecimal_def parseUnsignedDecimal_def isDigit_def Let_def)

lemma stringToNumber_blank:
  assumes "list_all isWhiteSpace s"
  shows "stringToNumber s = Fin 0"
proof -
  have d: "dropWhile isWhiteSpace s = []"
    using assms by (induction s) auto
  have "trim s = []"
    unfolding trim_def d by simp
  then show ?thesis by (simp add: stringToNumber_def)
qed

lemma truthy_iff: "truthy v \<longleftrightarrow> \<not> missingOrFalsy v"
  by (auto simp: truthy_def missingOrFalsy_def falsyValues_def split: option.splits json.splits)

lemma normalizeCandidate_built:
  assumes "normalizeCandidate P json = Inr (Some c)"
  shows "\<exists>cv. getProp json (str ''competition'') = Some cv
           \<and> truthy (Some cv)
           \<and> truthy (getProp cv (str ''id''))
           \<and> truthy (getProp cv (str ''title''))
           \<and> buildCompetition P cv = Inr c"
proof -
  from assms obtain cv where cv: "getProp json (str ''competition'') = Some cv"
    by (auto simp: normalizeCandidate_def split: option.splits)
  from assms cv have "truthy (Some cv)" and "truthy (getProp cv (str ''id''))"
    and "truthy (getProp cv (str ''title''))" and "buildCompetition P cv = Inr c"
    by (auto simp: normalizeCandidate_def split: if_splits sum.splits)
  then show ?thesis using cv by blast
qed

lemma buildCompetition_fields:
  assumes "buildCompetition P cv = Inr c"
  shows "String_of P (getProp cv (str ''id'')) = Inr (id_field c)"
    and "String_of P (getProp cv (str ''title'')) = Inr (title c)"
    and "participantsOf P (getProp cv (str ''participants'')) = Inr (participants c)"
  using assms
  by (auto simp: buildCompetition_def andThen_def split: sum.splits)

lemma normalizeCandidate_dropped:
  assumes "getProp json (str ''competition'') = Some cv"
    and "missingOrFalsy (getProp cv (str ''id'')) \<or> missingOrFalsy (getProp cv (str ''title''))"
  shows "normalizeCandidate P json = Inr None"
  using assms truthy_iff by (auto simp: normalizeCandidate_def)

lemma normalizeCandidate_no_competition:
  assumes "missingOrFalsy (getProp json (str ''competition''))"
  shows "normalizeCandidate P json = Inr None"
  using assms truthy_iff [of "getProp json (str ''competition'')"]
  by (auto simp: normalizeCandidate_def split: option.splits)

lemma participants_of_record:
  assumes "normalizeCandidate P json = Inr (Some c)"
    and "getProp json (str ''competition'') = Some cv"
  shows "participantsOf P (getProp cv (str ''participants'')) = Inr (participants c)"
proof -
  from normalizeCandidate_built [OF assms(1)] assms(2)
  have "buildCompetition P cv = Inr c" by auto
  then show ?thesis by (rule buildCompetition_fields(3))
qed

lemma sanitize_validBlock: "unescapeQuotes (sanitizeJsonString validBlock) = unescapeQuotes validBlock"
  by code_simp

lemma sanitize_untitledBlock: "unescapeQuotes (sanitizeJsonString untitledBlock) = unescapeQuotes untitledBlock"
  by code_simp

lemma normalize_validJson:
  "normalizeCandidate P validJson
     = Inr (Some \<lparr> id_field = str ''a'', title = str ''t'', description = [], prize = [],
                   timeLeft = [], source = [], participants = Fin 0, tags = [] \<rparr>)"
  by (simp add: normalizeCandidate_def validJson_def getProp_def truthy_def buildCompetition_def
        andThen_def descriptionOf_def tagsOf_def nullish_def String_of_def participantsOf_def
        toNumber_def normalizeSpaces_def trim_def str_def)

lemma normalize_untitledJson: "normalizeCandidate P untitledJson = Inr None"
  by (simp add: normalizeCandidate_def untitledJson_def getProp_def truthy_def str_def)

lemma getProp_candidateWith:
  "getProp (candidateWith v) (str ''competition'')
     = Some (JObj [(str ''id'', JStr (str ''a'')), (str ''title'', JStr (str ''t'')),
                   (str ''participants'', v)])"
  "getProp (JObj [(str ''id'', JStr (str ''a'')), (str ''title'', JStr (str ''t'')),
                  (str ''participants'', v)]) (str ''participants'') = Some v"
  by (simp_all add: candidateWith_def getProp_def str_def)

lemma normalize_candidateWith:
  assumes "participantsOf P (Some v) = Inr n"
  shows "normalizeCandidate P (candidateWith v) = Inr (Some (recordWith n))"
  using assms
  by (simp add: normalizeCandidate_def candidateWith_def recordWith_def getProp_def truthy_def
        buildCompetition_def andThen_def descriptionOf_def tagsOf_def nullish_def String_of_def
        normalizeSpaces_def trim_def str_def)

lemma participantsOf_simple:
  "participantsOf P (Some (JStr s)) = Inr (stringToNumber s)"
  "participantsOf P (Some (JNum n)) = Inr n"
  "participantsOf P (Some (JBool b)) = Inr (if b then Fin 1 else Fin 0)"
  "participantsOf P (Some (JArr [])) = Inr (stringToNumber [])"
  "participantsOf P (Some (JObj [])) = Inr (stringToNumber (str ''[object Object]''))"
  by (simp_all add: participantsOf_def nullish_def toNumber_def andThen_def)

text \<open>
  Claim C3, as amended. The participants field of the record that is built is
  \<open>Number(comp.participants ?? 0)\<close>: an absent value (\<open>undefined\<close> or \<open>null\<close>)
  gives 0, the string \<open>42\<close> gives 42 and a number gives itself. A value that is not
  numeric is not mapped to 0 in general but to what \<open>Number\<close> gives for it: \<open>NaN\<close>
  for every string that begins with an ASCII letter other than \<open>I\<close> and for every
  object; 0 for the empty string, a string of white space, \<open>false\<close> and the empty array;
  and 1 for \<open>true\<close>.
\<close>

theorem participants_coercion:
  assumes "normalizeCandidate P json = Inr (Some c)"
    and "getProp json (str ''competition'') = Some cv"
    and "getProp cv (str ''participants'') = v"
  shows "(v = None \<or> v = Some JNull \<longrightarrow> participants c = Fin 0)
         \<and> (v = Some (JStr (str ''42'')) \<longrightarrow> participants c = Fin 42)
         \<and> (\<forall>n. v = Some (JNum n) \<longrightarrow> participants c = n)
         \<and> (\<forall>ch rest. v = Some (JStr (ch # rest)) \<and> isAsciiLetter ch \<and> ch \<noteq> 0x49 \<longrightarrow>
               participants c = NaN)
         \<and> (\<forall>kvs. v = Some (JObj kvs) \<longrightarrow> participants c = NaN)
         \<and> (\<forall>s. v = Some (JStr s) \<and> list_all isWhiteSpace s \<longrightarrow> participants c = Fin 0)
         \<and> (v = Some (JBool False) \<or> v = Some (JArr []) \<longrightarrow> participants c = Fin 0)
         \<and> (v = Some (JBool True) \<longrightarrow> participants c = Fin 1)"
proof -
  from participants_of_record [OF assms(1) assms(2)] assms(3)
  have p: "participantsOf P v = Inr (participants c)" by simp
  have absent: "v = None \<or> v = Some JNull \<longrightarrow> participants c = Fin 0"
    using p by (auto simp: participantsOf_def nullish_def toNumber_def)
  have s42: "v = Some (JStr (str ''42'')) \<longrightarrow> participants c = Fin 42"
    using p by (auto simp: participantsOf_def nullish_def toNumber_def stringToNumber_42)
  have num: "\<forall>n. v = Some (JNum n) \<longrightarrow> participants c = n"
    using p by (auto simp: participantsOf_def nullish_def toNumber_def)
  have letter: "\<forall>ch rest. v = Some (JStr (ch # rest)) \<and> isAsciiLetter ch \<and> ch \<noteq> 0x49 \<longrightarrow>
                  participants c = NaN"
    using p by (auto simp: participantsOf_def nullish_def toNumber_def stringToNumber_letter)
  have obj: "\<forall>kvs. v = Some (JObj kvs) \<longrightarrow> participants c = NaN"
    using p
    by (auto simp: participantsOf_def nullish_def toNumber_def andThen_def stringToNumber_object
          split: if_splits)
  have blank: "\<forall>s. v = Some (JStr s) \<and> list_all isWhiteSpace s \<longrightarrow> participants c = Fin 0"
    using p by (auto simp: participantsOf_def nullish_def toNumber_def stringToNumber_blank)
  have emp: "stringToNumber [] = Fin 0"
    by (rule stringToNumber_blank) simp
  have fls: "v = Some (JBool False) \<or> v = Some (JArr []) \<longrightarrow> participants c = Fin 0"
    using p by (auto simp: participantsOf_def nullish_def toNumber_def andThen_def emp)
  have tru: "v = Some (JBool True) \<longrightarrow> participants c = Fin 1"
    using p by (auto simp: participantsOf_def nullish_def toNumber_def)
  show ?thesis using absent s42 num letter obj blank fls tru by blast
qed

theorem participants_coercion_witness:
  "normalizeCandidate examplePlatform validJson = Inr (Some (recordWith (Fin 0)))
   \<and> getProp validJson (str ''competition'')
       = Some (JObj [(str ''id'', JStr (str ''a'')), (str ''title'', JStr (str ''t''))])
   \<and> getProp (JObj [(str ''id'', JStr (str ''a'')), (str ''title'', JStr (str ''t''))])
        (str ''participants'') = None
   \<and> normalizeCandidate examplePlatform (candidateWith JNull) = Inr (Some (recordWith (Fin 0)))
   \<and> normalizeCandidate examplePlatform (candidateWith (JStr (str ''42'')))
       = Inr (Some (recordWith (Fin 42)))
   \<and> normalizeCandidate examplePlatform (candidateWith (JNum (Fin 7)))
       = Inr (Some (recordWith (Fin 7)))
   \<and> normalizeCandidate examplePlatform (candidateWith (JStr (str ''abc'')))
       = Inr (Some (recordWith NaN))
   \<and> normalizeCandidate examplePlatform (candidateWith (JObj [])) = Inr (Some (recordWith NaN))
   \<and> normalizeCandidate examplePlatform (candidateWith (JStr (str '' '')))
       = Inr (Some (recordWith (Fin 0)))
   \<and> normalizeCandidate examplePlatform (candidateWith (JBool False))
       = Inr (Some (recordWith (Fin 0)))
   \<and> normalizeCandidate examplePlatform (candidateWith (JArr []))
       = Inr (Some (recordWith (Fin 0)))
   \<and> normalizeCandidate examplePlatform (candidateWith (JBool True))
       = Inr (Some (recordWith (Fin 1)))"
proof -
  let ?P = examplePlatform
  let ?cv0 = "JObj [(str ''id'', JStr (str ''a'')), (str ''title'', JStr (str ''t''))]"
  have n0: "normalizeCandidate ?P validJson = Inr (Some (recordWith (Fin 0)))"
    by (simp add: normalize_validJson recordWith_def)
  have g0: "getProp validJson (str ''competition'') = Some ?cv0"
    by (simp add: validJson_def getProp_def)
  have p0: "getProp ?cv0 (str ''participants'') = None"
    by (simp add: getProp_def str_def)
  have r0: "participants (recordWith (Fin 0)) = Fin 0"
    using participants_coercion [OF n0 g0 p0] by simp
  have at: "\<And>v n. participantsOf ?P (Some v) = Inr n \<Longrightarrow>
              normalizeCandidate ?P (candidateWith v) = Inr (Some (recordWith n))"
    by (rule normalize_candidateWith)
  have null: "normalizeCandidate ?P (candidateWith JNull) = Inr (Some (recordWith (Fin 0)))"
  proof -
    have b: "normalizeCandidate ?P (candidateWith JNull)
               = Inr (Some (recordWith (Fin 0)))"
      by (rule at) (simp add: participantsOf_def nullish_def toNumber_def)
    from participants_coercion [OF b getProp_candidateWith] b show ?thesis by simp
  qed
  have s42: "normalizeCandidate ?P (candidateWith (JStr (str ''42'')))
               = Inr (Some (recordWith (Fin 42)))"
  proof -
    have b: "normalizeCandidate ?P (candidateWith (JStr (str ''42'')))
               = Inr (Some (recordWith (stringToNumber (str ''42''))))"
      by (rule at) (simp add: participantsOf_simple)
    from participants_coercion [OF b getProp_candidateWith]
    have "participants (recordWith (stringToNumber (str ''42''))) = Fin 42" by simp
    then have "stringToNumber (str ''42'') = Fin 42" by (simp add: recordWith_def)
    with b show ?thesis by simp
  qed
  have n7: "normalizeCandidate ?P (candidateWith (JNum (Fin 7)))
              = Inr (Some (recordWith (Fin 7)))"
  proof -
    have b: "normalizeCandidate ?P (candidateWith (JNum (Fin 7)))
               = Inr (Some (recordWith (Fin 7)))"
      by (rule at) (simp add: participantsOf_simple)
    from participants_coercion [OF b getProp_candidateWith] b show ?thesis by simp
  qed
  have abc: "normalizeCandidate ?P (candidateWith (JStr (str ''abc'')))
               = Inr (Some (recordWith NaN))"
  proof -
    have b: "normalizeCandidate ?P (candidateWith (JStr (str ''abc'')))
               = Inr (Some (recordWith (stringToNumber (str ''abc''))))"
      by (rule at) (simp add: participantsOf_simple)
    have l: "str ''abc'' = 0x61 # str ''bc''" and "isAsciiLetter 0x61"
      by (simp_all add: str_def isAsciiLetter_def)
    with participants_coercion [OF b getProp_candidateWith]
    have "participants (recordWith (stringToNumber (str ''abc''))) = NaN"
      by simp
    then have "stringToNumber (str ''abc'') = NaN" by (simp add: recordWith_def)
    with b show ?thesis by simp
  qed
  have obj: "normalizeCandidate ?P (candidateWith (JObj [])) = Inr (Some (recordWith NaN))"
  proof -
    have b: "normalizeCandidate ?P (candidateWith (JObj []))
               = Inr (Some (recordWith (stringToNumber (str ''[object Object]''))))"
      by (rule at) (simp add: participantsOf_simple)
    from participants_coercion [OF b getProp_candidateWith]
    have "participants (recordWith (stringToNumber (str ''[object Object]''))) = NaN" by simp
    then have "stringToNumber (str ''[object Object]'') = NaN" by (simp add: recordWith_def)
    with b show ?thesis by simp
  qed
  have blank: "normalizeCandidate ?P (candidateWith (JStr (str '' '')))
                 = Inr (Some (recordWith (Fin 0)))"
  proof -
    have b: "normalizeCandidate ?P (candidateWith (JStr (str '' '')))
               = Inr (Some (recordWith (stringToNumber (str '' ''))))"
      by (rule at) (simp add: participantsOf_simple)
    have "list_all isWhiteSpace (str '' '')"
      by (simp add: str_def isWhiteSpace_def)
    with participants_coercion [OF b getProp_candidateWith]
    have "participants (recordWith (stringToNumber (str '' ''))) = Fin 0" by simp
    then have "stringToNumber (str '' '') = Fin 0" by (simp add: recordWith_def)
    with b show ?thesis by simp
  qed
  have fls: "normalizeCandidate ?P (candidateWith (JBool False))
               = Inr (Some (recordWith (Fin 0)))"
  proof -
    have b: "normalizeCandidate ?P (candidateWith (JBool False))
               = Inr (Some (recordWith (Fin 0)))"
      by (rule at) (simp add: participantsOf_simple)
    from participants_coercion [OF b getProp_candidateWith] b show ?thesis by simp
  qed
  have arr: "normalizeCandidate ?P (candidateWith (JArr []))
               = Inr (Some (recordWith (Fin 0)))"
  proof -
    have b: "normalizeCandidate ?P (candidateWith (JArr []))
               = Inr (Some (recordWith (stringToNumber [])))"
      by (rule at) (simp add: participantsOf_simple)
    from participants_coercion [OF b getProp_candidateWith]
    have "participants (recordWith (stringToNumber [])) = Fin 0" by simp
    then have "stringToNumber [] = Fin 0" by (simp add: recordWith_def)
    with b show ?thesis by simp
  qed
  have tru: "normalizeCandidate ?P (candidateWith (JBool True))
               = Inr (Some (recordWith (Fin 1)))"
  proof -
    have b: "normalizeCandidate ?P (candidateWith (JBool True))
               = Inr (Some (recordWith (Fin 1)))"
      by (rule at) (simp add: participantsOf_simple)
    from participants_coercion [OF b getProp_candidateWith] b show ?thesis by simp
  qed
  from r0 n0 g0 p0 null s42 n7 abc obj blank fls arr tru show ?thesis by simp
qed

text \<open>
  Claim C3 as stated fails: for the candidate with id \<open>a\<close>, title \<open>t\<close> and the
  participants value \<open>abc\<close>, a string that is not numeric, the record that is built
  has the participants number \<open>NaN\<close> and not 0.
\<close>

theorem non_numeric_participants_is_NaN:
  "normalizeCandidate examplePlatform
     (JObj [(str ''competition'',
             JObj [(str ''id'', JStr (str ''a'')), (str ''title'', JStr (str ''t'')),
                   (str ''participants'', JStr (str ''abc''))])])
     = Inr (Some \<lparr> id_field = str ''a'', title = str ''t'', description = [], prize = [],
                   timeLeft = [], source = [], participants = NaN, tags = [] \<rparr>)
   \<and> NaN \<noteq> Fin 0"
proof -
  have "stringToNumber (str ''abc'') = NaN"
    using stringToNumber_letter [of "0x61" "str ''bc''"]
    by (simp add: str_def isAsciiLetter_def)
  then have "participantsOf examplePlatform (Some (JStr (str ''abc''))) = Inr NaN"
    by (simp add: participantsOf_simple)
  from normalize_candidateWith [OF this] show ?thesis
    by (simp add: candidateWith_def recordWith_def)
qed

lemma normalizeCandidate_Some:
  assumes "normalizeCandidate P json = Inr (Some c)"
  shows "\<exists>cv. getProp json (str ''competition'') = Some cv
           \<and> \<not> missingOrFalsy (Some cv)
           \<and> \<not> missingOrFalsy (getProp cv (str ''id''))
           \<and> \<not> missingOrFalsy (getProp cv (str ''title''))
           \<and> String_of P (getProp cv (str ''id'')) = Inr (id_field c)
           \<and> String_of P (getProp cv (str ''title'')) = Inr (title c)
           \<and> (\<forall>i. getProp cv (str ''id'') = Some (JStr i) \<longrightarrow> i \<noteq> [] \<and> id_field c = i)
           \<and> (\<forall>t. getProp cv (str ''title'') = Some (JStr t) \<longrightarrow> t \<noteq> [] \<and> title c = t)"
proof -
  from normalizeCandidate_built [OF assms] obtain cv where
    cv: "getProp json (str ''competition'') = Some cv"
    and t0: "truthy (Some cv)"
    and t1: "truthy (getProp cv (str ''id''))"
    and t2: "truthy (getProp cv (str ''title''))"
    and b: "buildCompetition P cv = Inr c"
    by blast
  note f = buildCompetition_fields [OF b]
  have i: "\<forall>i. getProp cv (str ''id'') = Some (JStr i) \<longrightarrow> i \<noteq> [] \<and> id_field c = i"
    using t1 f(1) by (auto simp: truthy_def String_of_def)
  have t: "\<forall>t. getProp cv (str ''title'') = Some (JStr t) \<longrightarrow> t \<noteq> [] \<and> title c = t"
    using t2 f(2) by (auto simp: truthy_def String_of_def)
  from cv t0 t1 t2 f(1) f(2) i t show ?thesis
    unfolding truthy_iff by blast
qed

lemma scan_step_dropped:
  assumes "indexOf chunk marker searchIndex = Some markerIndex"
    and "indexOf chunk [LBRACE] markerIndex = Some objectStart"
    and "extractJsonBlock chunk objectStart = Some raw"
    and "parseCompetitionJson P raw = Inr json"
    and "normalizeCandidate P json = Inr None"
  shows "scanLoop P chunk searchIndex competitions
           = scanLoop P chunk (objectStart + length raw) competitions"
proof -
  from extractJsonBlock_Some [OF assms(3)] have ne: "raw \<noteq> []" by simp
  have "scanIteration P chunk searchIndex competitions
          = Some (objectStart + length raw, competitions)"
    using assms ne by (simp add: scanIteration_def)
  then show ?thesis
    by (subst scanLoop.simps) simp
qed

lemma scan_step_kept:
  assumes "indexOf chunk marker searchIndex = Some markerIndex"
    and "indexOf chunk [LBRACE] markerIndex = Some objectStart"
    and "extractJsonBlock chunk objectStart = Some raw"
    and "parseCompetitionJson P raw = Inr json"
    and "normalizeCandidate P json = Inr (Some c)"
  shows "scanLoop P chunk searchIndex competitions
           = scanLoop P chunk (objectStart + length raw) (competitions @ [c])"
proof -
  from extractJsonBlock_Some [OF assms(3)] have ne: "raw \<noteq> []" by simp
  have "scanIteration P chunk searchIndex competitions
          = Some (objectStart + length raw, competitions @ [c])"
    using assms ne by (simp add: scanIteration_def)
  then show ?thesis
    by (subst scanLoop.simps) simp
qed

lemma scan_stop:
  assumes "indexOf chunk marker searchIndex = None"
  shows "scanLoop P chunk searchIndex competitions = Some competitions"
  using assms by (subst scanLoop.simps) (simp add: scanIteration_def)

lemma two_it1: "indexOf twoCandidatesChunk marker 0 = Some 0" by code_simp
lemma two_it2: "indexOf twoCandidatesChunk [LBRACE] 0 = Some 16" by code_simp
lemma two_it3: "extractJsonBlock twoCandidatesChunk 16 = Some validBlock" by code_simp
lemma two_it4: "indexOf twoCandidatesChunk marker 64 = Some 65" by code_simp
lemma two_it5: "indexOf twoCandidatesChunk [LBRACE] 65 = Some 81" by code_simp
lemma two_it6: "extractJsonBlock twoCandidatesChunk 81 = Some untitledBlock" by code_simp
lemma two_it7: "indexOf twoCandidatesChunk marker 113 = None" by code_simp
lemma first_it1: "indexOf untitledFirstChunk marker 0 = Some 0" by code_simp
lemma first_it2: "indexOf untitledFirstChunk [LBRACE] 0 = Some 16" by code_simp
lemma first_it3: "extractJsonBlock untitledFirstChunk 16 = Some untitledBlock" by code_simp
lemma first_it4: "indexOf untitledFirstChunk marker 48 = Some 49" by code_simp
lemma first_it5: "indexOf untitledFirstChunk [LBRACE] 49 = Some 65" by code_simp
lemma first_it6: "extractJsonBlock untitledFirstChunk 65 = Some validBlock" by code_simp
lemma first_it7: "indexOf untitledFirstChunk marker 113 = None" by code_simp
lemma length_validBlock: "length validBlock = 48" by code_simp
lemma length_untitledBlock: "length untitledBlock = 32" by code_simp
lemma twoCandidatesChunk_ne: "twoCandidatesChunk \<noteq> []" by code_simp
lemma untitledFirstChunk_ne: "untitledFirstChunk \<noteq> []" by code_simp

lemma parse_validBlock:
  assumes "JSON_parse P (unescapeQuotes validBlock) = Some validJson"
  shows "parseCompetitionJson P validBlock = Inr validJson"
  using assms by (simp add: parseCompetitionJson_def sanitize_validBlock)

lemma parse_untitledBlock:
  assumes "JSON_parse P (unescapeQuotes untitledBlock) = Some untitledJson"
  shows "parseCompetitionJson P untitledBlock = Inr untitledJson"
  using assms by (simp add: parseCompetitionJson_def sanitize_untitledBlock)

lemma normalize_validJson_record:
  "normalizeCandidate P validJson = Inr (Some (recordWith (Fin 0)))"
  by (simp add: normalize_validJson recordWith_def)

lemma two_candidates_one_record:
  assumes v: "JSON_parse P (unescapeQuotes validBlock) = Some validJson"
    and u: "JSON_parse P (unescapeQuotes untitledBlock) = Some untitledJson"
  shows "extractFromChunk P (Some twoCandidatesChunk) = Some [recordWith (Fin 0)]"
proof -
  let ?r = "recordWith (Fin 0)"
  have "scanLoop P twoCandidatesChunk 0 [] = scanLoop P twoCandidatesChunk (16 + 48) ([] @ [?r])"
    using scan_step_kept [OF two_it1 two_it2 two_it3 parse_validBlock [OF v]
            normalize_validJson_record]
    by (simp only: length_validBlock)
  also have "\<dots> = scanLoop P twoCandidatesChunk 64 [?r]" by simp
  also have "\<dots> = scanLoop P twoCandidatesChunk (81 + 32) [?r]"
    using scan_step_dropped [OF two_it4 two_it5 two_it6 parse_untitledBlock [OF u]
            normalize_untitledJson]
    by (simp only: length_untitledBlock)
  also have "\<dots> = scanLoop P twoCandidatesChunk 113 [?r]" by simp
  also have "\<dots> = Some [?r]" by (rule scan_stop [OF two_it7])
  finally show ?thesis
    by (simp add: extractFromChunk_def twoCandidatesChunk_ne)
qed

lemma untitled_first_one_record:
  assumes v: "JSON_parse P (unescapeQuotes validBlock) = Some validJson"
    and u: "JSON_parse P (unescapeQuotes untitledBlock) = Some untitledJson"
  shows "extractFromChunk P (Some untitledFirstChunk) = Some [recordWith (Fin 0)]"
proof -
  let ?r = "recordWith (Fin 0)"
  have "scanLoop P untitledFirstChunk 0 [] = scanLoop P untitledFirstChunk (16 + 32) []"
    using scan_step_dropped [OF first_it1 first_it2 first_it3 parse_untitledBlock [OF u]
            normalize_untitledJson]
    by (simp only: length_untitledBlock)
  also have "\<dots> = scanLoop P untitledFirstChunk 48 []" by simp
  also have "\<dots> = scanLoop P untitledFirstChunk (65 + 48) ([] @ [?r])"
    using scan_step_kept [OF first_it4 first_it5 first_it6 parse_validBlock [OF v]
            normalize_validJson_record]
    by (simp only: length_validBlock)
  also have "\<dots> = scanLoop P untitledFirstChunk 113 [?r]" by simp
  also have "\<dots> = Some [?r]" by (rule scan_stop [OF first_it7])
  finally show ?thesis
    by (simp add: extractFromChunk_def untitledFirstChunk_ne)
qed

text \<open>
  Claim C6, as amended. A record is built from a parsed candidate only when its
  \<open>competition\<close> object, the id and the title of that object are all truthy, that is,
  none of them is missing, \<open>null\<close>, \<open>false\<close>, 0, \<open>NaN\<close> or the empty string. The
  record's id and title are then \<open>String(id)\<close> and \<open>String(title)\<close>: the id and the
  title themselves, not empty, when they are strings. A candidate whose \<open>competition\<close>
  object, id or title is missing or falsy is dropped, with no record built from defaults,
  and the scan goes on behind the candidate's block with the records found so far, as it
  does, with the new record appended, behind a candidate that is kept. From a chunk with
  one valid candidate and one candidate without title, in either order, exactly one
  record is extracted, that of the valid candidate, whenever \<open>JSON.parse\<close> returns the
  two objects for the two blocks.
\<close>

theorem candidate_needs_truthy_id_and_title:
  "(normalizeCandidate P json = Inr (Some c) \<longrightarrow>
      (\<exists>cv. getProp json (str ''competition'') = Some cv
            \<and> \<not> missingOrFalsy (Some cv)
            \<and> \<not> missingOrFalsy (getProp cv (str ''id''))
            \<and> \<not> missingOrFalsy (getProp cv (str ''title''))
            \<and> String_of P (getProp cv (str ''id'')) = Inr (id_field c)
            \<and> String_of P (getProp cv (str ''title'')) = Inr (title c)
            \<and> (\<forall>i. getProp cv (str ''id'') = Some (JStr i) \<longrightarrow> i \<noteq> [] \<and> id_field c = i)
            \<and> (\<forall>t. getProp cv (str ''title'') = Some (JStr t) \<longrightarrow> t \<noteq> [] \<and> title c = t)))
   \<and> (missingOrFalsy (getProp json1 (str ''competition'')) \<longrightarrow>
        normalizeCandidate P json1 = Inr None)
   \<and> (getProp json2 (str ''competition'') = Some cv2
        \<and> (missingOrFalsy (getProp cv2 (str ''id''))
             \<or> missingOrFalsy (getProp cv2 (str ''title''))) \<longrightarrow>
        normalizeCandidate P json2 = Inr None)
   \<and> (indexOf chunk marker searchIndex = Some markerIndex
        \<and> indexOf chunk [LBRACE] markerIndex = Some objectStart
        \<and> extractJsonBlock chunk objectStart = Some raw
        \<and> parseCompetitionJson P raw = Inr json3
        \<and> normalizeCandidate P json3 = Inr None \<longrightarrow>
        scanLoop P chunk searchIndex competitions
          = scanLoop P chunk (objectStart + length raw) competitions)
   \<and> (indexOf chunk4 marker searchIndex4 = Some markerIndex4
        \<and> indexOf chunk4 [LBRACE] markerIndex4 = Some objectStart4
        \<and> extractJsonBlock chunk4 objectStart4 = Some raw4
        \<and> parseCompetitionJson P raw4 = Inr json4
        \<and> normalizeCandidate P json4 = Inr (Some c4) \<longrightarrow>
        scanLoop P chunk4 searchIndex4 competitions4
          = scanLoop P chunk4 (objectStart4 + length raw4) (competitions4 @ [c4]))
   \<and> (JSON_parse P (unescapeQuotes validBlock) = Some validJson
        \<and> JSON_parse P (unescapeQuotes untitledBlock) = Some untitledJson \<longrightarrow>
        extractFromChunk P (Some twoCandidatesChunk)
          = Some [\<lparr> id_field = str ''a'', title = str ''t'', description = [], prize = [],
                     timeLeft = [], source = [], participants = Fin 0, tags = [] \<rparr>]
        \<and> extractFromChunk P (Some untitledFirstChunk)
          = Some [\<lparr> id_field = str ''a'', title = str ''t'', description = [], prize = [],
                     timeLeft = [], source = [], participants = Fin 0, tags = [] \<rparr>])"
proof -
  have a: "normalizeCandidate P json = Inr (Some c) \<longrightarrow>
      (\<exists>cv. getProp json (str ''competition'') = Some cv
            \<and> \<not> missingOrFalsy (Some cv)
            \<and> \<not> missingOrFalsy (getProp cv (str ''id''))
            \<and> \<not> missingOrFalsy (getProp cv (str ''title''))
            \<and> String_of P (getProp cv (str ''id'')) = Inr (id_field c)
            \<and> String_of P (getProp cv (str ''title'')) = Inr (title c)
            \<and> (\<forall>i. getProp cv (str ''id'') = Some (JStr i) \<longrightarrow> i \<noteq> [] \<and> id_field c = i)
            \<and> (\<forall>t. getProp cv (str ''title'') = Some (JStr t) \<longrightarrow> t \<noteq> [] \<and> title c = t))"
    using normalizeCandidate_Some [of P json c] by blast
  have b: "missingOrFalsy (getProp json1 (str ''competition'')) \<longrightarrow>
        normalizeCandidate P json1 = Inr None"
    using normalizeCandidate_no_competition [of json1 P] by blast
  have c: "getProp json2 (str ''competition'') = Some cv2
        \<and> (missingOrFalsy (getProp cv2 (str ''id''))
             \<or> missingOrFalsy (getProp cv2 (str ''title''))) \<longrightarrow>
        normalizeCandidate P json2 = Inr None"
    using normalizeCandidate_dropped [of json2 cv2 P] by blast
  have d: "indexOf chunk marker searchIndex = Some markerIndex
        \<and> indexOf chunk [LBRACE] markerIndex = Some objectStart
        \<and> extractJsonBlock chunk objectStart = Some raw
        \<and> parseCompetitionJson P raw = Inr json3
        \<and> normalizeCandidate P json3 = Inr None \<longrightarrow>
        scanLoop P chunk searchIndex competitions
          = scanLoop P chunk (objectStart + length raw) competitions"
    using scan_step_dropped [of chunk searchIndex markerIndex objectStart raw P json3 competitions]
    by blast
  have e: "indexOf chunk4 marker searchIndex4 = Some markerIndex4
        \<and> indexOf chunk4 [LBRACE] markerIndex4 = Some objectStart4
        \<and> extractJsonBlock chunk4 objectStart4 = Some raw4
        \<and> parseCompetitionJson P raw4 = Inr json4
        \<and> normalizeCandidate P json4 = Inr (Some c4) \<longrightarrow>
        scanLoop P chunk4 searchIndex4 competitions4
          = scanLoop P chunk4 (objectStart4 + length raw4) (competitions4 @ [c4])"
    using scan_step_kept
            [of chunk4 searchIndex4 markerIndex4 objectStart4 raw4 P json4 c4 competitions4]
    by blast
  have f: "JSON_parse P (unescapeQuotes validBlock) = Some validJson
        \<and> JSON_parse P (unescapeQuotes untitledBlock) = Some untitledJson \<longrightarrow>
        extractFromChunk P (Some twoCandidatesChunk)
          = Some [\<lparr> id_field = str ''a'', title = str ''t'', description = [], prize = [],
                     timeLeft = [], source = [], participants = Fin 0, tags = [] \<rparr>]
        \<and> extractFromChunk P (Some untitledFirstChunk)
          = Some [\<lparr> id_field = str ''a'', title = str ''t'', description = [], prize = [],
                     timeLeft = [], source = [], participants = Fin 0, tags = [] \<rparr>]"
    using two_candidates_one_record [of P] untitled_first_one_record [of P]
    by (simp add: recordWith_def)
  from a b c d e f show ?thesis by (intro conjI)
qed

theorem candidate_needs_truthy_id_and_title_witness:
  "normalizeCandidate examplePlatform validJson
     = Inr (Some \<lparr> id_field = str ''a'', title = str ''t'', description = [], prize = [],
                   timeLeft = [], source = [], participants = Fin 0, tags = [] \<rparr>)
   \<and> (\<exists>cv. getProp validJson (str ''competition'') = Some cv
            \<and> \<not> missingOrFalsy (Some cv)
            \<and> \<not> missingOrFalsy (getProp cv (str ''id''))
            \<and> \<not> missingOrFalsy (getProp cv (str ''title''))
            \<and> String_of examplePlatform (getProp cv (str ''id'')) = Inr (str ''a'')
            \<and> String_of examplePlatform (getProp cv (str ''title'')) = Inr (str ''t''))
   \<and> missingOrFalsy (getProp (JObj [(str ''competition'', JNull)]) (str ''competition''))
   \<and> normalizeCandidate examplePlatform (JObj [(str ''competition'', JNull)]) = Inr None
   \<and> getProp untitledJson (str ''competition'') = Some (JObj [(str ''id'', JStr (str ''b''))])
   \<and> missingOrFalsy (getProp (JObj [(str ''id'', JStr (str ''b''))]) (str ''title''))
   \<and> normalizeCandidate examplePlatform untitledJson = Inr None
   \<and> missingOrFalsy
        (getProp (JObj [(str ''id'', JNum (Fin 0)), (str ''title'', JStr (str ''t''))])
           (str ''id''))
   \<and> normalizeCandidate examplePlatform
        (JObj [(str ''competition'',
                JObj [(str ''id'', JNum (Fin 0)), (str ''title'', JStr (str ''t''))])])
       = Inr None
   \<and> indexOf twoCandidatesChunk marker 64 = Some 65
   \<and> indexOf twoCandidatesChunk [LBRACE] 65 = Some 81
   \<and> extractJsonBlock twoCandidatesChunk 81 = Some untitledBlock
   \<and> parseCompetitionJson examplePlatform untitledBlock = Inr untitledJson
   \<and> scanLoop examplePlatform twoCandidatesChunk 64
        [\<lparr> id_field = str ''a'', title = str ''t'', description = [], prize = [],
            timeLeft = [], source = [], participants = Fin 0, tags = [] \<rparr>]
       = scanLoop examplePlatform twoCandidatesChunk (81 + length untitledBlock)
           [\<lparr> id_field = str ''a'', title = str ''t'', description = [], prize = [],
               timeLeft = [], source = [], participants = Fin 0, tags = [] \<rparr>]
   \<and> indexOf twoCandidatesChunk marker 0 = Some 0
   \<and> indexOf twoCandidatesChunk [LBRACE] 0 = Some 16
   \<and> extractJsonBlock twoCandidatesChunk 16 = Some validBlock
   \<and> parseCompetitionJson examplePlatform validBlock = Inr validJson
   \<and> scanLoop examplePlatform twoCandidatesChunk 0 []
       = scanLoop examplePlatform twoCandidatesChunk (16 + length validBlock)
           ([] @ [\<lparr> id_field = str ''a'', title = str ''t'', description = [], prize = [],
                     timeLeft = [], source = [], participants = Fin 0, tags = [] \<rparr>])
   \<and> JSON_parse examplePlatform (unescapeQuotes validBlock) = Some validJson
   \<and> JSON_parse examplePlatform (unescapeQuotes untitledBlock) = Some untitledJson
   \<and> extractFromChunk examplePlatform (Some twoCandidatesChunk)
       = Some [\<lparr> id_field = str ''a'', title = str ''t'', description = [], prize = [],
                  timeLeft = [], source = [], participants = Fin 0, tags = [] \<rparr>]
   \<and> extractFromChunk examplePlatform (Some untitledFirstChunk)
       = Some [\<lparr> id_field = str ''a'', title = str ''t'', description = [], prize = [],
                  timeLeft = [], source = [], participants = Fin 0, tags = [] \<rparr>]"
proof -
  let ?P = examplePlatform
  let ?r = "\<lparr> id_field = str ''a'', title = str ''t'', description = [], prize = [],
              timeLeft = [], source = [], participants = Fin 0, tags = [] \<rparr>"
  let ?nocomp = "JObj [(str ''competition'', JNull)]"
  let ?cvb = "JObj [(str ''id'', JStr (str ''b''))]"
  let ?cv0 = "JObj [(str ''id'', JNum (Fin 0)), (str ''title'', JStr (str ''t''))]"
  let ?zero = "JObj [(str ''competition'', ?cv0)]"
  have a: "normalizeCandidate ?P validJson = Inr (Some ?r)"
    by (rule normalize_validJson)
  have b: "missingOrFalsy (getProp ?nocomp (str ''competition''))"
    by (simp add: missingOrFalsy_def falsyValues_def getProp_def)
  have c1: "getProp untitledJson (str ''competition'') = Some ?cvb"
    by (simp add: untitledJson_def getProp_def)
  have c2: "missingOrFalsy (getProp ?cvb (str ''title''))"
    by (simp add: missingOrFalsy_def getProp_def str_def)
  have z1: "getProp ?zero (str ''competition'') = Some ?cv0"
    by (simp add: getProp_def)
  have z2: "missingOrFalsy (getProp ?cv0 (str ''id''))"
    by (simp add: missingOrFalsy_def falsyValues_def getProp_def)
  have pv: "JSON_parse ?P (unescapeQuotes validBlock) = Some validJson"
    by (simp add: examplePlatform_def)
  have pu: "JSON_parse ?P (unescapeQuotes untitledBlock) = Some untitledJson"
    by code_simp
  note d = two_it4 two_it5 two_it6 parse_untitledBlock [OF pu]
  have d5: "normalizeCandidate ?P untitledJson = Inr None"
    by (rule normalize_untitledJson)
  note e = two_it1 two_it2 two_it3 parse_validBlock [OF pv]
  note t1 = candidate_needs_truthy_id_and_title
    [where P = ?P and json = validJson and c = ?r
       and ?json1.0 = ?nocomp and ?json2.0 = untitledJson and ?cv2.0 = ?cvb
       and chunk = twoCandidatesChunk and searchIndex = 64 and markerIndex = 65
       and objectStart = 81 and raw = untitledBlock and ?json3.0 = untitledJson
       and competitions = "[?r]"
       and ?chunk4.0 = twoCandidatesChunk and ?searchIndex4.0 = 0 and ?markerIndex4.0 = 0
       and ?objectStart4.0 = 16 and ?raw4.0 = validBlock and ?json4.0 = validJson
       and ?c4.0 = ?r and ?competitions4.0 = "[]"]
  note t2 = candidate_needs_truthy_id_and_title
    [where P = ?P and ?json2.0 = ?zero and ?cv2.0 = ?cv0]
  have k1: "\<exists>cv. getProp validJson (str ''competition'') = Some cv
            \<and> \<not> missingOrFalsy (Some cv)
            \<and> \<not> missingOrFalsy (getProp cv (str ''id''))
            \<and> \<not> missingOrFalsy (getProp cv (str ''title''))
            \<and> String_of examplePlatform (getProp cv (str ''id'')) = Inr (str ''a'')
            \<and> String_of examplePlatform (getProp cv (str ''title'')) = Inr (str ''t'')"
    using t1 a by auto
  have k2: "normalizeCandidate ?P ?nocomp = Inr None"
    using t1 b by blast
  have k3: "normalizeCandidate ?P untitledJson = Inr None"
    using t1 c1 c2 by blast
  have k4: "normalizeCandidate ?P ?zero = Inr None"
    using t2 z1 z2 by blast
  have k5: "scanLoop ?P twoCandidatesChunk 64 [?r]
              = scanLoop ?P twoCandidatesChunk (81 + length untitledBlock) [?r]"
    using t1 d d5 by blast
  have k6: "scanLoop ?P twoCandidatesChunk 0 []
              = scanLoop ?P twoCandidatesChunk (16 + length validBlock) ([] @ [?r])"
    using t1 e a by blast
  have k7: "extractFromChunk ?P (Some twoCandidatesChunk) = Some [?r]"
    and k8: "extractFromChunk ?P (Some untitledFirstChunk) = Some [?r]"
    using t1 pv pu by blast+
  from a k1 b k2 c1 c2 k3 z2 k4 d k5 e k6 pv pu k7 k8 show ?thesis
    by (intro conjI)
qed

text \<open>
  Claim C6 as stated fails: for the candidate whose id and title are both the empty array,
  which is truthy, a record is built, and its id and its title are the empty string.
\<close>

theorem empty_array_id_and_title_build_a_record:
  "normalizeCandidate examplePlatform
     (JObj [(str ''competition'', JObj [(str ''id'', JArr []), (str ''title'', JArr [])])])
     = Inr (Some \<lparr> id_field = [], title = [], description = [], prize = [], timeLeft = [],
                   source = [], participants = Fin 0, tags = [] \<rparr>)"
  by (simp add: normalizeCandidate_def getProp_def truthy_def buildCompetition_def
        andThen_def descriptionOf_def tagsOf_def nullish_def String_of_def participantsOf_def
        toNumber_def normalizeSpaces_def trim_def collect_def str_def)

end
